theory Spec2Isabelle
  imports Main "HOL-Library.Product_Lexorder"
begin

section \<open>Strings, text and errors\<close>

text \<open>
  The package runs on Python 2.7 and later (\<^verbatim>\<open>setup.py\<close>), so on Python 2 and on Python 3;
  the interpreter is part of the platform below. Paths, environment values, tool names,
  group names and the captured output of the external tool are modelled by
  \<^typ>\<open>string\<close>. What is read back from the binary temporary file is a byte string on both
  interpreters: a \<^verbatim>\<open>str\<close> on Python 2 and a \<^verbatim>\<open>bytes\<close> on Python 3. The text that
  \<^verbatim>\<open>line.decode('utf-8')\<close> produces is a sequence of Unicode code points and is modelled by
  a list of naturals; the decoder and the set of white space are those of Python 3.
\<close>

type_synonym unicode = "nat list"

definition u :: "string \<Rightarrow> unicode" where
  \<comment> \<open>the text of an ASCII literal\<close>
  "u s = map of_char s"

text \<open>
  Modelled from the spec: the exception class \<^verbatim>\<open>UtilError\<close> of \<^verbatim>\<open>mylogin/exception.py\<close>,
  which is not among the source files. It is a failure that carries its message, read
  back as \<^verbatim>\<open>errmsg\<close>. The other errors are Python's own: the \<open>KeyError\<close> of a lookup in
  \<^verbatim>\<open>os.environ\<close>, the \<open>AssertionError\<close> of an \<^verbatim>\<open>assert\<close>, the \<open>UnicodeDecodeError\<close> of
  \<^verbatim>\<open>decode\<close>, and the \<open>TypeError\<close> that Python 3 raises when a pattern that is a \<^verbatim>\<open>str\<close>
  is applied to \<^verbatim>\<open>bytes\<close>.
\<close>

datatype error =
    UtilError unicode
  | KeyError string
  | AssertionError
  | UnicodeDecodeError
  | TypeError

subsection \<open>\<^verbatim>\<open>bytes.decode('utf-8')\<close>\<close>

definition is_continuation :: "char \<Rightarrow> bool" where
  "is_continuation c \<longleftrightarrow> (0x80::nat) \<le> of_char c \<and> of_char c < (0xC0::nat)"

definition utf8_sequence :: "char \<Rightarrow> string \<Rightarrow> (nat \<times> nat) option" where
  \<comment> \<open>the code point that starts with lead byte \<open>c\<close>, and how many of the following bytes
      it uses; \<open>None\<close> where the strict decoder raises\<close>
  "utf8_sequence c cs =
    (let b = (of_char c :: nat) in
     if b < 0x80 then Some (b, 0)
     else if 0xC2 \<le> b \<and> b < 0xE0 then
       (case cs of
          c1 # _ \<Rightarrow>
            if is_continuation c1
            then Some ((b - 0xC0) * 64 + (of_char c1 - 0x80), 1)
            else None
        | _ \<Rightarrow> None)
     else if 0xE0 \<le> b \<and> b < 0xF0 then
       (case cs of
          c1 # c2 # _ \<Rightarrow>
            (let cp = (b - 0xE0) * 4096 + (of_char c1 - 0x80) * 64 + (of_char c2 - 0x80) in
             if is_continuation c1 \<and> is_continuation c2 \<and> 0x800 \<le> cp
                \<and> \<not> (0xD800 \<le> cp \<and> cp < 0xE000)
             then Some (cp, 2) else None)
        | _ \<Rightarrow> None)
     else if 0xF0 \<le> b \<and> b < 0xF5 then
       (case cs of
          c1 # c2 # c3 # _ \<Rightarrow>
            (let cp = (b - 0xF0) * 262144 + (of_char c1 - 0x80) * 4096
                      + (of_char c2 - 0x80) * 64 + (of_char c3 - 0x80) in
             if is_continuation c1 \<and> is_continuation c2 \<and> is_continuation c3
                \<and> 0x10000 \<le> cp \<and> cp < 0x110000
             then Some (cp, 3) else None)
        | _ \<Rightarrow> None)
     else None)"

function utf8_decode :: "string \<Rightarrow> unicode option" where
  "utf8_decode [] = Some []"
| "utf8_decode (c # cs) =
    (case utf8_sequence c cs of
       None \<Rightarrow> None
     | Some (cp, n) \<Rightarrow> map_option ((#) cp) (utf8_decode (drop n cs)))"
  by pat_completeness auto
termination
  by (relation "measure length") auto

subsection \<open>String methods\<close>

definition isspace :: "nat \<Rightarrow> bool" where
  \<comment> \<open>the code points that \<^verbatim>\<open>unicode.strip()\<close> removes\<close>
  "isspace c \<longleftrightarrow>
     (0x09 \<le> c \<and> c \<le> 0x0D) \<or> (0x1C \<le> c \<and> c \<le> 0x20) \<or> c = 0x85 \<or> c = 0xA0
     \<or> c = 0x1680 \<or> (0x2000 \<le> c \<and> c \<le> 0x200A) \<or> c = 0x2028 \<or> c = 0x2029
     \<or> c = 0x202F \<or> c = 0x205F \<or> c = 0x3000"

definition strip :: "unicode \<Rightarrow> unicode" where
  "strip s = rev (dropWhile isspace (rev (dropWhile isspace s)))"

definition split_once :: "'a \<Rightarrow> 'a list \<Rightarrow> 'a list list" where
  \<comment> \<open>\<^verbatim>\<open>s.split(sep, 1)\<close> for a separator of one character\<close>
  "split_once sep s =
    (case dropWhile (\<lambda>c. c \<noteq> sep) s of
       [] \<Rightarrow> [s]
     | _ # rest \<Rightarrow> [takeWhile (\<lambda>c. c \<noteq> sep) s, rest])"

fun split_on :: "char \<Rightarrow> string \<Rightarrow> string list" where
  \<comment> \<open>\<^verbatim>\<open>s.split(sep)\<close> for a separator of one character\<close>
  "split_on sep [] = [[]]"
| "split_on sep (c # cs) =
    (if c = sep then [] # split_on sep cs
     else (case split_on sep cs of
             [] \<Rightarrow> [[c]]
           | p # ps \<Rightarrow> (c # p) # ps))"

fun readlines :: "string \<Rightarrow> string list" where
  \<comment> \<open>the lines of a binary file, each with its terminating newline\<close>
  "readlines [] = []"
| "readlines (c # cs) =
    (if c = CHR 0x0A then [c] # readlines cs
     else (case readlines cs of
             [] \<Rightarrow> [[c]]
           | l # ls \<Rightarrow> (c # l) # ls))"

definition readline :: "string \<Rightarrow> string" where
  "readline out = (case readlines out of [] \<Rightarrow> [] | l # _ \<Rightarrow> l)"

section \<open>The operating system\<close>

datatype interpreter = Python2 | Python3

text \<open>
  What the module reads from its platform: the interpreter that runs it, \<^verbatim>\<open>os.name\<close>,
  \<^verbatim>\<open>os.environ\<close>, \<^verbatim>\<open>os.pathsep\<close>, the functions of \<^verbatim>\<open>os.path\<close>, the file system behind
  \<^verbatim>\<open>isdir\<close> and \<^verbatim>\<open>isfile\<close>, and the standard output of the external tool:
  \<open>tool_stdout env n argv\<close> is what the process started with \<open>argv\<close> prints when \<open>n\<close>
  processes have been started before it.
\<close>

record os_env =
  interpreter :: interpreter
  os_name :: string
  environ :: "string \<rightharpoonup> string"
  pathsep :: char
  expanduser :: "string \<Rightarrow> string"
  normpath :: "string \<Rightarrow> string"
  path_join :: "string \<Rightarrow> string \<Rightarrow> string"
  isdir :: "string \<Rightarrow> bool"
  isfile :: "string \<Rightarrow> bool"
  tool_stdout :: "nat \<Rightarrow> string list \<Rightarrow> string"

subsection \<open>\<^verbatim>\<open>posixpath\<close>\<close>

definition posix_join :: "string \<Rightarrow> string \<Rightarrow> string" where
  "posix_join a b =
    (if take 1 b = ''/'' then b
     else if a = [] \<or> last a = CHR ''/'' then a @ b
     else a @ ''/'' @ b)"

definition normpath_step :: "nat \<Rightarrow> string list \<Rightarrow> string \<Rightarrow> string list" where
  "normpath_step initial_slashes new_comps part =
    (if part = [] \<or> part = ''.'' then new_comps
     else if part \<noteq> ''..'' \<or> (initial_slashes = 0 \<and> new_comps = [])
             \<or> (new_comps \<noteq> [] \<and> last new_comps = ''..'')
          then new_comps @ [part]
     else if new_comps \<noteq> [] then butlast new_comps
     else new_comps)"

fun slash_join :: "string list \<Rightarrow> string" where
  "slash_join [] = []"
| "slash_join [c] = c"
| "slash_join (c # cs) = c @ ''/'' @ slash_join cs"

definition posix_normpath :: "string \<Rightarrow> string" where
  "posix_normpath path =
    (if path = [] then ''.''
     else
       (let initial_slashes =
              (if take 1 path = ''/''
               then (if take 2 path = ''//'' \<and> take 3 path \<noteq> ''///'' then 2 else 1)
               else 0);
            comps = foldl (normpath_step initial_slashes) [] (split_on CHR ''/'' path);
            path' = replicate initial_slashes CHR ''/'' @ slash_join comps
        in if path' = [] then ''.'' else path'))"

section \<open>Locating a tool\<close>

definition MY_PRINT_DEFAULTS_TOOL :: string where
  "MY_PRINT_DEFAULTS_TOOL = ''my_print_defaults''"

definition add_basedir :: "os_env \<Rightarrow> string list \<Rightarrow> string \<Rightarrow> string list" where
  "add_basedir env search_paths path_str =
     search_paths
       @ [path_str]
       @ [path_join env path_str ''sql'']
       @ [path_join env path_str ''client'']
       @ [path_join env path_str ''share'']
       @ [path_join env path_str ''scripts'']
       @ [path_join env path_str ''bin'']
       @ [path_join env path_str ''libexec'']
       @ [path_join env path_str ''mysql'']"

definition search_paths ::
  "os_env \<Rightarrow> string option \<Rightarrow> string list option \<Rightarrow> bool \<Rightarrow> error + string list" where
  \<comment> \<open>lines 75 to 95 of \<^verbatim>\<open>get_tool_path\<close>: the ordered list of candidate directories\<close>
  "search_paths env basedir defaults_paths search_PATH =
    (let defaults_paths = (case defaults_paths of None \<Rightarrow> [] | Some ps \<Rightarrow> ps);
         sp = [];
         sp = (case basedir of
                 None \<Rightarrow> sp
               | Some b \<Rightarrow> if b \<noteq> [] then add_basedir env sp b else sp);
         sp = (if defaults_paths \<noteq> [] then sp @ defaults_paths
               else add_basedir env
                      (add_basedir env
                         (add_basedir env sp ''/usr/local/mysql/'')
                         ''/usr/sbin/'')
                      ''/usr/share/'')
     in if search_PATH then
          (case environ env ''PATH'' of
             None \<Rightarrow> Inl (KeyError ''PATH'')
           | Some v \<Rightarrow> Inr (sp @ split_on (pathsep env) v))
        else Inr sp)"

datatype probe = is_IsDir: IsDir string | IsFile string

definition later :: "probe list \<Rightarrow> probe list \<times> 'a \<Rightarrow> probe list \<times> 'a" where
  "later ps r = (ps @ fst r, snd r)"

fun search_loop :: "os_env \<Rightarrow> string \<Rightarrow> string list \<Rightarrow> probe list \<times> string option" where
  \<comment> \<open>lines 100 to 110; the first component lists the file-system tests in the order made\<close>
  "search_loop env tool [] = ([], None)"
| "search_loop env tool (path # rest) =
    (let norm_path = normpath env path in
     if isdir env norm_path then
       (let toolpath = path_join env norm_path tool in
        if isfile env toolpath then ([IsDir norm_path, IsFile toolpath], Some toolpath)
        else if tool = ''mysqld.exe'' then
          (let toolpath' = path_join env norm_path ''mysqld-nt.exe'' in
           if isfile env toolpath'
           then ([IsDir norm_path, IsFile toolpath, IsFile toolpath'], Some toolpath')
           else later [IsDir norm_path, IsFile toolpath, IsFile toolpath']
                  (search_loop env tool rest))
        else later [IsDir norm_path, IsFile toolpath] (search_loop env tool rest))
     else later [IsDir norm_path] (search_loop env tool rest))"

definition fixed_tool :: "os_env \<Rightarrow> string \<Rightarrow> bool \<Rightarrow> string" where
  \<comment> \<open>lines 97 and 98\<close>
  "fixed_tool env tool fix_ext =
     (if os_name env = ''nt'' \<and> fix_ext then tool @ ''.exe'' else tool)"

definition get_tool_path ::
  "os_env \<Rightarrow> string option \<Rightarrow> string \<Rightarrow> bool \<Rightarrow> bool \<Rightarrow> string list option \<Rightarrow> bool
     \<Rightarrow> probe list \<times> (error + string option)" where
  "get_tool_path env basedir tool fix_ext required defaults_paths search_PATH =
    (case search_paths env basedir defaults_paths search_PATH of
       Inl e \<Rightarrow> ([], Inl e)
     | Inr sp \<Rightarrow>
         (let tool = fixed_tool env tool fix_ext;
              found = search_loop env tool sp
          in case snd found of
               Some toolpath \<Rightarrow> (fst found, Inr (Some toolpath))
             | None \<Rightarrow>
                 if required
                 then (fst found,
                       Inl (UtilError (u ''Cannot find location of '' @ u tool @ u ''.'')))
                 else (fst found, Inr None)))"

definition my_login_config_path :: "os_env \<Rightarrow> error + string" where
  "my_login_config_path env =
    (if os_name env = ''posix'' then Inr (expanduser env ''~'')
     else (case environ env ''APPDATA'' of
             None \<Rightarrow> Inl (KeyError ''APPDATA'')
           | Some appdata \<Rightarrow> Inr (appdata @ [CHR 0x5C] @ ''MySQL'')))"

section \<open>MyDefaultsReader\<close>

datatype optval = Text unicode | PyTrue

type_synonym option_group = "unicode \<rightharpoonup> optval"

record reader =
  basedir :: "string option"
  verbosity :: int
  tool_path :: "string option"
  config_data :: "string \<rightharpoonup> option_group option"

text \<open>
  Every \<^verbatim>\<open>subprocess.call\<close> is recorded: its argument vector and whether standard error
  goes to the null device.
\<close>

record invocation =
  argv :: "string list"
  stderr_null :: bool

type_synonym world = "invocation list"

definition subprocess_call ::
  "os_env \<Rightarrow> world \<Rightarrow> string list \<Rightarrow> bool \<Rightarrow> world \<times> string" where
  "subprocess_call env w args quiet =
     (w @ [\<lparr>argv = args, stderr_null = quiet\<rparr>], tool_stdout env (length w) args)"

definition run_tool :: "os_env \<Rightarrow> reader \<Rightarrow> world \<Rightarrow> string \<Rightarrow> string \<Rightarrow> world \<times> string" where
  \<comment> \<open>the two branches on \<^verbatim>\<open>self._verbosity\<close> that each query makes\<close>
  "run_tool env r w path arg =
     (if verbosity r > 0 then subprocess_call env w [path, arg] False
      else subprocess_call env w [path, arg] True)"

definition search_my_print_defaults_tool ::
  "os_env \<Rightarrow> reader \<Rightarrow> string list option \<Rightarrow> probe list \<times> (error + reader)" where
  "search_my_print_defaults_tool env r search_paths_arg =
    (let extra = (case search_paths_arg of None \<Rightarrow> [] | Some ps \<Rightarrow> ps) in
     case my_login_config_path env of
       Inl e \<Rightarrow> ([], Inl e)
     | Inr cfg \<Rightarrow>
         (let default_paths = (if extra \<noteq> [] then [cfg] @ extra else [cfg]) in
          case get_tool_path env (basedir r) MY_PRINT_DEFAULTS_TOOL True True
                 (Some default_paths) True of
            (probes, Inl (UtilError errmsg)) \<Rightarrow>
              (probes,
               Inl (UtilError
                 (u (''Unable to locate MySQL Client tools. ''
                     @ ''Please confirm that the path to the MySQL client ''
                     @ ''tools are included in the PATH. Error: '')
                  @ errmsg)))
          | (probes, Inl e) \<Rightarrow> (probes, Inl e)
          | (probes, Inr p) \<Rightarrow> (probes, Inr (r\<lparr>tool_path := p\<rparr>))))"

definition new_reader ::
  "os_env \<Rightarrow> string option \<Rightarrow> int option \<Rightarrow> bool \<Rightarrow> probe list \<times> (error + reader)" where
  \<comment> \<open>the constructor, for an options mapping whose keys \<^verbatim>\<open>basedir\<close> and \<^verbatim>\<open>verbosity\<close> are
      present with the given values, or missing\<close>
  "new_reader env basedir_opt verbosity_opt find_my_print_defaults_tool =
    (let r = \<lparr>basedir = basedir_opt,
              verbosity = (case verbosity_opt of None \<Rightarrow> 0 | Some v \<Rightarrow> v),
              tool_path = None, config_data = Map.empty\<rparr>
     in if find_my_print_defaults_tool then search_my_print_defaults_tool env r None
        else ([], Inr r))"

subsection \<open>The version check\<close>

text \<open>
  The line read back from the temporary file is a byte string, and \<^verbatim>\<open>re.search\<close> is
  applied to it as it is, with a pattern that is a \<^verbatim>\<open>str\<close>. On Python 2 the line is a
  \<^verbatim>\<open>str\<close> too: \<^verbatim>\<open>\d\<close> is one of the ten ASCII digits, and \<^verbatim>\<open>int\<close> of such a digit is its
  value. On Python 3 the line is \<^verbatim>\<open>bytes\<close>, there is no \<^verbatim>\<open>decode\<close> as in
  \<^verbatim>\<open>_read_group_data\<close>, and \<^verbatim>\<open>re.search\<close> raises \<open>TypeError\<close> whatever the line holds; the
  tool has been run by then.
\<close>

definition isdigit :: "char \<Rightarrow> bool" where
  "isdigit c \<longleftrightarrow> (0x30::nat) \<le> of_char c \<and> of_char c \<le> (0x39::nat)"

definition digit_value :: "char \<Rightarrow> int" where
  "digit_value c = int (of_char c) - 0x30"

fun match_version :: "string \<Rightarrow> (char \<times> char) option" where
  \<comment> \<open>the pattern \<^verbatim>\<open>(?:Ver )(\d)\.(\d)\<close> at the start of the string\<close>
  "match_version (c1 # c2 # c3 # c4 # major # dot # minor # _) =
     (if [c1, c2, c3, c4] = ''Ver '' \<and> isdigit major \<and> dot = CHR ''.'' \<and> isdigit minor
      then Some (major, minor) else None)"
| "match_version _ = None"

fun re_search_version :: "string \<Rightarrow> (char \<times> char) option" where
  \<comment> \<open>\<^verbatim>\<open>re.search\<close>: the leftmost position where the pattern matches\<close>
  "re_search_version [] = None"
| "re_search_version (c # cs) =
     (case match_version (c # cs) of
        Some groups \<Rightarrow> Some groups
      | None \<Rightarrow> re_search_version cs)"

definition check_tool_version ::
  "os_env \<Rightarrow> reader \<Rightarrow> world \<Rightarrow> int \<Rightarrow> int \<Rightarrow> (error + bool) \<times> world" where
  "check_tool_version env r w major_version minor_version =
    (case tool_path r of
       None \<Rightarrow> (Inl AssertionError, w)
     | Some path \<Rightarrow>
         if path = [] then (Inl AssertionError, w)
         else
           (let (w', out) = run_tool env r w path ''--version'';
                line = readline out
            in case interpreter env of
                 Python3 \<Rightarrow> (Inl TypeError, w')
               | Python2 \<Rightarrow>
                   (case re_search_version line of
                      Some (major, minor) \<Rightarrow>
                        if major_version < digit_value major
                           \<or> (major_version = digit_value major
                               \<and> minor_version \<le> digit_value minor)
                        then (Inr True, w')
                        else (Inr False, w')
                    | None \<Rightarrow>
                        (Inl (UtilError (u ''Unable to determine tool version - '' @ u path)),
                         w'))))"

subsection \<open>The test for login paths\<close>

fun substring :: "string \<Rightarrow> string \<Rightarrow> bool" where
  \<comment> \<open>\<^verbatim>\<open>needle in haystack\<close>\<close>
  "substring needle [] = (needle = [])"
| "substring needle (c # cs) =
     (take (length needle) (c # cs) = needle \<or> substring needle cs)"

definition check_login_path_support ::
  "os_env \<Rightarrow> reader \<Rightarrow> world \<Rightarrow> (error + bool) \<times> world" where
  \<comment> \<open>on Python 3 \<^verbatim>\<open>str\<close> of the bytes read is their \<^verbatim>\<open>repr\<close>, in which \<^verbatim>\<open>login-path\<close>
      occurs exactly when it occurs in the bytes: every escape begins with a backslash\<close>
  "check_login_path_support env r w =
    (case tool_path r of
       None \<Rightarrow> (Inl AssertionError, w)
     | Some path \<Rightarrow>
         if path = [] then (Inl AssertionError, w)
         else
           (let (w', help_output) = run_tool env r w path ''--help'' in
            if substring ''login-path'' help_output then (Inr True, w')
            else (Inr False, w')))"

subsection \<open>Reading a group\<close>

definition parse_line :: "string \<Rightarrow> unicode \<Rightarrow> error + unicode \<times> optval" where
  \<comment> \<open>the body of the loop of \<^verbatim>\<open>_read_group_data\<close> after decoding, lines 306 to 315\<close>
  "parse_line grp line =
    (let key_value = split_once (0x3D::nat) (drop 2 line) in
     if length key_value = 2 then Inr (key_value ! 0, Text (strip (key_value ! 1)))
     else if length key_value = 1 then Inr (key_value ! 0, PyTrue)
     else Inl (UtilError
                 (u ''Invalid option value format for group '' @ u grp @ u '': '' @ line)))"

fun parse_lines :: "string \<Rightarrow> string list \<Rightarrow> error + (unicode \<times> optval) list" where
  "parse_lines grp [] = Inr []"
| "parse_lines grp (raw # rest) =
    (case utf8_decode raw of
       None \<Rightarrow> Inl UnicodeDecodeError
     | Some line \<Rightarrow>
         (case parse_line grp line of
            Inl e \<Rightarrow> Inl e
          | Inr kv \<Rightarrow>
              (case parse_lines grp rest of
                 Inl e \<Rightarrow> Inl e
               | Inr results \<Rightarrow> Inr (kv # results))))"

definition dict :: "('k \<times> 'v) list \<Rightarrow> ('k \<rightharpoonup> 'v)" where
  \<comment> \<open>\<^verbatim>\<open>dict(pairs)\<close>: a later pair replaces an earlier one with the same key\<close>
  "dict pairs = map_of (rev pairs)"

definition read_group_data ::
  "os_env \<Rightarrow> reader \<Rightarrow> world \<Rightarrow> string \<Rightarrow> (error + option_group option) \<times> reader \<times> world" where
  "read_group_data env r w grp =
    (case tool_path r of
       None \<Rightarrow> (Inl AssertionError, r, w)
     | Some path \<Rightarrow>
         if path = [] then (Inl AssertionError, r, w)
         else
           (let (w', out) = run_tool env r w path grp in
            case parse_lines grp (readlines out) of
              Inl e \<Rightarrow> (Inl e, r, w')
            | Inr results \<Rightarrow>
                (let data = (if results \<noteq> [] then Some (dict results) else None);
                     r' = r\<lparr>config_data := (config_data r)(grp \<mapsto> data)\<rparr>
                 in (Inr data, r', w'))))"

definition get_group_data ::
  "os_env \<Rightarrow> reader \<Rightarrow> world \<Rightarrow> string \<Rightarrow> (error + option_group option) \<times> reader \<times> world" where
  "get_group_data env r w grp =
    (case config_data r grp of
       Some data \<Rightarrow> (Inr data, r, w)
     | None \<Rightarrow> read_group_data env r w grp)"

definition get_option_value ::
  "os_env \<Rightarrow> reader \<Rightarrow> world \<Rightarrow> string \<Rightarrow> unicode
     \<Rightarrow> (error + optval option) \<times> reader \<times> world" where
  \<comment> \<open>a stored mapping is never empty, so the truth test of line 340 is the test for \<open>None\<close>\<close>
  "get_option_value env r w grp opt_name =
    (case get_group_data env r w grp of
       (Inl e, r', w') \<Rightarrow> (Inl e, r', w')
     | (Inr grp_options, r', w') \<Rightarrow>
         (case grp_options of
            Some options \<Rightarrow> (Inr (options opt_name), r', w')
          | None \<Rightarrow> (Inr None, r', w')))"

text \<open>
  Two calls in sequence, \<^verbatim>\<open>reader.get_group_data(group); reader.get_group_data(group)\<close>: an
  exception of the first call ends the sequence.
\<close>

definition get_group_data_twice ::
  "os_env \<Rightarrow> reader \<Rightarrow> world \<Rightarrow> string \<Rightarrow> (error + option_group option) \<times> reader \<times> world" where
  "get_group_data_twice env r w grp =
    (case get_group_data env r w grp of
       (Inl e, r', w') \<Rightarrow> (Inl e, r', w')
     | (Inr first, r', w') \<Rightarrow> get_group_data env r' w' grp)"

section \<open>The vocabulary of the properties\<close>

text \<open>
  A candidate directory holds the tool when its normalised path is a directory and the
  tool's name, joined to it, is a regular file; it holds the legacy name when the name
  searched for is \<^verbatim>\<open>mysqld.exe\<close> and \<^verbatim>\<open>mysqld-nt.exe\<close> is a regular file there. A file-system
  test is at a candidate when it is the directory test of its normalised path or a file
  test of a name joined to it.
\<close>

definition holds_tool :: "os_env \<Rightarrow> string \<Rightarrow> string \<Rightarrow> bool" where
  "holds_tool env tool path \<longleftrightarrow>
     isdir env (normpath env path) \<and> isfile env (path_join env (normpath env path) tool)"

definition holds_legacy :: "os_env \<Rightarrow> string \<Rightarrow> string \<Rightarrow> bool" where
  "holds_legacy env tool path \<longleftrightarrow>
     tool = ''mysqld.exe'' \<and> isdir env (normpath env path)
     \<and> isfile env (path_join env (normpath env path) ''mysqld-nt.exe'')"

definition probes_at :: "os_env \<Rightarrow> string \<Rightarrow> probe \<Rightarrow> bool" where
  "probes_at env path pr \<longleftrightarrow>
     pr = IsDir (normpath env path)
     \<or> (\<exists>name. pr = IsFile (path_join env (normpath env path) name))"

text \<open>
  The expansion of a base directory as section 4.1 of the specification lists it, the
  candidates that \<^verbatim>\<open>basedir\<close> contributes, and those that \<^verbatim>\<open>PATH\<close> contributes.
\<close>

definition path_probe :: "os_env \<Rightarrow> string \<Rightarrow> string list" where
  "path_probe env b =
     [b, path_join env b ''sql'', path_join env b ''client'', path_join env b ''share'',
      path_join env b ''scripts'', path_join env b ''bin'', path_join env b ''libexec'',
      path_join env b ''mysql'']"

definition basedir_candidates :: "os_env \<Rightarrow> string option \<Rightarrow> string list" where
  "basedir_candidates env base =
     (case base of None \<Rightarrow> [] | Some b \<Rightarrow> if b = [] then [] else path_probe env b)"

definition PATH_candidates :: "os_env \<Rightarrow> bool \<Rightarrow> string \<Rightarrow> string list" where
  "PATH_candidates env search_PATH v = (if search_PATH then split_on (pathsep env) v else [])"

text \<open>
  A group has been queried when some recorded call has it as its one argument; the cache
  is justified when every group that is a key of it has been queried.
\<close>

definition queried :: "world \<Rightarrow> string \<Rightarrow> bool" where
  "queried w grp \<longleftrightarrow>
     list_ex (\<lambda>call. case argv call of [path, arg] \<Rightarrow> arg = grp | _ \<Rightarrow> False) w"

definition cache_justified :: "reader \<Rightarrow> world \<Rightarrow> bool" where
  "cache_justified r w \<longleftrightarrow> (\<forall>grp. config_data r grp \<noteq> None \<longrightarrow> queried w grp)"

section \<open>Concrete platforms and readers\<close>

text \<open>
  A POSIX platform with Python 3, given by its directories, its regular files, its
  environment, the expansion of \<^verbatim>\<open>~\<close> and the output of the external tool; the same
  platform with Python 2; a reader whose tool has been found; and two outputs of the tool.
\<close>

definition posix_env ::
  "string list \<Rightarrow> string list \<Rightarrow> (string \<times> string) list \<Rightarrow> string
     \<Rightarrow> (nat \<Rightarrow> string list \<Rightarrow> string) \<Rightarrow> os_env" where
  "posix_env dirs files vars home_dir out =
     \<lparr>interpreter = Python3,
      os_name = ''posix'', environ = map_of vars, pathsep = CHR '':'',
      expanduser = (\<lambda>p. if p = ''~'' then home_dir else p),
      normpath = posix_normpath, path_join = posix_join,
      isdir = (\<lambda>p. p \<in> set dirs), isfile = (\<lambda>p. p \<in> set files),
      tool_stdout = out\<rparr>"

definition on_python2 :: "os_env \<Rightarrow> os_env" where
  "on_python2 env = env\<lparr>interpreter := Python2\<rparr>"

definition found_reader :: reader where
  "found_reader = \<lparr>basedir = None, verbosity = 0,
     tool_path = Some ''/usr/bin/my_print_defaults'', config_data = Map.empty\<rparr>"

definition synthetic_output :: string where
  "synthetic_output =
     ''--user=root'' @ [CHR 0x0A] @ ''--password='' @ [CHR 0x0A] @ ''--flag'' @ [CHR 0x0A]"

definition garbage_output :: string where
  "garbage_output = ''garbage'' @ [CHR 0x0A]"

text \<open>
  A Windows platform given by its environment. Only \<^verbatim>\<open>os.name\<close> and the environment are
  read by what is evaluated on it; the path functions stand for \<^verbatim>\<open>ntpath\<close> on a directory
  and a plain file name.
\<close>

definition windows_env :: "(string \<times> string) list \<Rightarrow> os_env" where
  "windows_env vars =
     \<lparr>interpreter = Python3,
      os_name = ''nt'', environ = map_of vars, pathsep = CHR '';'',
      expanduser = (\<lambda>p. p), normpath = (\<lambda>p. p),
      path_join = (\<lambda>a b. a @ [CHR 0x5C] @ b),
      isdir = (\<lambda>p. False), isfile = (\<lambda>p. False),
      tool_stdout = (\<lambda>n args. [])\<rparr>"

text \<open>A POSIX platform whose tool prints the given banner as its first line.\<close>

definition version_env :: "string \<Rightarrow> os_env" where
  "version_env banner = posix_env [] [] [] ''/root'' (\<lambda>n args. banner @ [CHR 0x0A])"

text \<open>
  A platform where \<^verbatim>\<open>mysqld-nt.exe\<close> lies in an earlier directory than \<^verbatim>\<open>mysqld.exe\<close>; a
  platform with the client tools in \<^verbatim>\<open>/usr/bin\<close>; and a reader as the constructor leaves it
  before discovery.
\<close>

definition legacy_env :: os_env where
  "legacy_env = posix_env [''/opt/a'', ''/opt/b'']
     [''/opt/a/mysqld-nt.exe'', ''/opt/b/mysqld.exe''] [] ''/root'' (\<lambda>n args. [])"

definition client_env :: os_env where
  "client_env = posix_env [''/home/user'', ''/usr/bin'', ''/bin'']
     [''/usr/bin/my_print_defaults'', ''/bin/ls'']
     [(''PATH'', ''/usr/local/bin:/usr/bin:/bin'')] ''/home/user''
     (\<lambda>n args. [])"

definition fresh_reader :: "string option \<Rightarrow> reader" where
  "fresh_reader base =
     \<lparr>basedir = base, verbosity = 0, tool_path = None, config_data = Map.empty\<rparr>"

text \<open>The call of the tool that queries the group \<^verbatim>\<open>client\<close>.\<close>

definition client_call :: invocation where
  "client_call = \<lparr>argv = [''/usr/bin/my_print_defaults'', ''client''], stderr_null = True\<rparr>"

section \<open>Parsing the output of the tool\<close>

lemma split_once_length:
  "length (split_once sep s) = 1 \<or> length (split_once sep s) = 2"
  by (simp add: split_once_def split: list.split)

lemma dropWhile_no_sep:
  "sep \<notin> set s \<Longrightarrow> dropWhile (\<lambda>c. c \<noteq> sep) s = []"
  by (induction s) auto

lemma dropWhile_first_sep:
  "sep \<notin> set k \<Longrightarrow> dropWhile (\<lambda>c. c \<noteq> sep) (k @ sep # v) = sep # v"
  by (induction k) auto

lemma takeWhile_first_sep:
  "sep \<notin> set k \<Longrightarrow> takeWhile (\<lambda>c. c \<noteq> sep) (k @ sep # v) = k"
  by (induction k) auto

lemma split_once_without_sep:
  "sep \<notin> set s \<Longrightarrow> split_once sep s = [s]"
  by (simp add: split_once_def dropWhile_no_sep)

lemma split_once_with_sep:
  "sep \<notin> set k \<Longrightarrow> split_once sep (k @ sep # v) = [k, v]"
  by (simp add: split_once_def dropWhile_first_sep takeWhile_first_sep)

lemma parse_line_flag:
  "0x3D \<notin> set (drop 2 line) \<Longrightarrow> parse_line grp line = Inr (drop 2 line, PyTrue)"
  by (simp add: parse_line_def split_once_without_sep)

lemma parse_line_key_value:
  "drop 2 line = k @ 0x3D # v \<Longrightarrow> 0x3D \<notin> set k \<Longrightarrow>
   parse_line grp line = Inr (k, Text (strip v))"
  by (simp add: parse_line_def split_once_with_sep)

lemma parse_line_total: "\<exists>kv. parse_line grp line = Inr kv"
  using split_once_length [of "0x3D" "drop 2 line"]
  by (auto simp add: parse_line_def Let_def)

lemma parse_lines_no_UtilError: "parse_lines grp raws \<noteq> Inl (UtilError msg)"
proof (induction raws)
  case Nil
  show ?case by simp
next
  case (Cons raw rest)
  show ?case
  proof (cases "utf8_decode raw")
    case None
    then show ?thesis by simp
  next
    case (Some line)
    obtain kv where "parse_line grp line = Inr kv"
      using parse_line_total by blast
    with Some Cons show ?thesis
      by (auto split: sum.split)
  qed
qed

lemma parse_lines_decodable:
  "\<forall>raw\<in>set raws. utf8_decode raw \<noteq> None \<Longrightarrow> \<exists>results. parse_lines grp raws = Inr results"
proof (induction raws)
  case Nil
  show ?case by simp
next
  case (Cons raw rest)
  then obtain line where l: "utf8_decode raw = Some line" by auto
  obtain kv where kv: "parse_line grp line = Inr kv"
    using parse_line_total by blast
  from Cons obtain results where "parse_lines grp rest = Inr results" by auto
  with l kv show ?case by simp
qed

lemma parse_lines_member:
  "parse_lines grp raws = Inr results \<Longrightarrow> raw \<in> set raws \<Longrightarrow>
   utf8_decode raw = Some line \<Longrightarrow> parse_line grp line = Inr kv \<Longrightarrow> kv \<in> set results"
proof (induction raws arbitrary: results)
  case Nil
  then show ?case by simp
next
  case (Cons a rest)
  then show ?case
    by (auto split: option.splits sum.splits)
qed

lemma dom_dict: "dom (dict pairs) = fst ` set pairs"
  by (simp add: dict_def dom_map_of_conv_image_fst)


lemma read_group_data_no_UtilError:
  "fst (read_group_data env r w grp) \<noteq> Inl (UtilError msg)"
  using parse_lines_no_UtilError
  by (auto simp add: read_group_data_def Let_def split: option.split sum.split prod.split)

lemmas eval_simps =
  get_group_data_def read_group_data_def run_tool_def subprocess_call_def posix_env_def
  found_reader_def parse_line_def split_once_def strip_def isspace_def dict_def u_def
  utf8_sequence_def get_option_value_def Let_def

text \<open>
  Claim C9. The branch of \<^verbatim>\<open>_read_group_data\<close> that raises ``Invalid option value format''
  is never taken: for every line, dropping two characters and splitting once on \<open>=\<close> gives
  one or two parts, so the parse of a decoded line always yields an entry, and neither the
  loop over the lines nor \<^verbatim>\<open>_read_group_data\<close> nor \<^verbatim>\<open>get_group_data\<close> ever fails with a
  \<open>UtilError\<close>, whatever the tool printed.
\<close>

theorem invalid_format_branch_unreachable:
  "(length (split_once (0x3D::nat) (drop 2 line)) = 1
      \<or> length (split_once (0x3D::nat) (drop 2 line)) = 2)
   \<and> (\<exists>kv. parse_line grp line = Inr kv)
   \<and> (\<forall>msg. parse_lines grp raws \<noteq> Inl (UtilError msg))
   \<and> (\<forall>msg. fst (read_group_data env r w grp) \<noteq> Inl (UtilError msg))
   \<and> (\<forall>msg. fst (get_group_data env r w grp) \<noteq> Inl (UtilError msg))"
proof -
  have "fst (get_group_data env r w grp) \<noteq> Inl (UtilError msg)" for msg
    using read_group_data_no_UtilError [of env r w grp msg]
    by (simp add: get_group_data_def split: option.split)
  moreover have "length (split_once (0x3D::nat) (drop 2 line)) = 1
      \<or> length (split_once (0x3D::nat) (drop 2 line)) = 2"
    by (rule split_once_length)
  moreover have "\<exists>kv. parse_line grp line = Inr kv"
    by (rule parse_line_total)
  ultimately show ?thesis
    using parse_lines_no_UtilError read_group_data_no_UtilError
    by (intro conjI allI)
qed

text \<open>
  Claim C1. On the output \<^verbatim>\<open>--user=root\n--password=\n--flag\n\<close> a cache miss of
  \<^verbatim>\<open>get_group_data\<close> returns the mapping with the keys \<^verbatim>\<open>user\<close>, \<^verbatim>\<open>password\<close> and
  \<^verbatim>\<open>flag\n\<close>: the value of a \<^verbatim>\<open>key=value\<close> line is stripped, which removes the newline, and
  the key of a bare flag is not. The option \<^verbatim>\<open>flag\<close> is then not found by
  \<^verbatim>\<open>get_option_value\<close>. The general shape of the parse is \<open>parse_line_key_value\<close> and
  \<open>parse_line_flag\<close> above.
\<close>

theorem bare_flag_key_keeps_newline:
  "fst (get_group_data (posix_env [] [] [] ''/root'' (\<lambda>n args. synthetic_output))
          found_reader [] ''client'')
     = Inr (Some [u ''user'' \<mapsto> Text (u ''root''),
                  u ''password'' \<mapsto> Text [],
                  u ''flag'' @ [0x0A] \<mapsto> PyTrue])
   \<and> fst (get_option_value (posix_env [] [] [] ''/root'' (\<lambda>n args. synthetic_output))
          found_reader [] ''client'' (u ''flag'')) = Inr None"
  by (simp add: eval_simps synthetic_output_def)

text \<open>
  Claim C2, as stated: a line \<^verbatim>\<open>garbage\<close> makes \<^verbatim>\<open>get_group_data\<close> fail. It does not: the
  first two characters are dropped unexamined and the rest is stored as a bare flag.
\<close>

theorem garbage_line_counterexample:
  "fst (get_group_data (posix_env [] [] [] ''/root'' (\<lambda>n args. garbage_output))
          found_reader [] ''client'')
     = Inr (Some [u ''rbage'' @ [0x0A] \<mapsto> PyTrue])"
  by (simp add: eval_simps garbage_output_def)

text \<open>
  Claim C2, amended. When the tool path is set, the group is not cached and every line of
  the tool's output decodes as UTF-8, a line with no \<open>=\<close> after its first two characters
  does not make \<^verbatim>\<open>get_group_data\<close> fail: the call returns a mapping, and the line without
  its first two characters is one of its keys.
\<close>

theorem line_without_equals_is_stored:
  assumes "tool_path r = Some path" and "path \<noteq> []" and "config_data r grp = None"
    and "\<forall>raw \<in> set (readlines (tool_stdout env (length w) [path, grp])).
           utf8_decode raw \<noteq> None"
    and "raw \<in> set (readlines (tool_stdout env (length w) [path, grp]))"
    and "utf8_decode raw = Some line"
    and "0x3D \<notin> set (drop 2 line)"
  shows "\<exists>m. fst (get_group_data env r w grp) = Inr (Some m) \<and> drop 2 line \<in> dom m"
proof -
  let ?raws = "readlines (tool_stdout env (length w) [path, grp])"
  obtain results where res: "parse_lines grp ?raws = Inr results"
    using parse_lines_decodable [OF assms(4)] by blast
  have "parse_line grp line = Inr (drop 2 line, PyTrue)"
    using assms(7) by (rule parse_line_flag)
  with res assms(5,6) have mem: "(drop 2 line, PyTrue) \<in> set results"
    by (rule parse_lines_member)
  then have ne: "results \<noteq> []" by auto
  have "fst (get_group_data env r w grp) = Inr (Some (dict results))"
    using assms(1,2,3) res ne
    by (simp add: get_group_data_def read_group_data_def run_tool_def subprocess_call_def
          Let_def)
  moreover have "drop 2 line \<in> dom (dict results)"
    unfolding dom_dict using mem by (rule image_eqI [rotated]) simp
  ultimately show ?thesis by blast
qed

theorem line_without_equals_is_stored_witness:
  "tool_path found_reader = Some ''/usr/bin/my_print_defaults''
   \<and> ''/usr/bin/my_print_defaults'' \<noteq> []
   \<and> config_data found_reader ''client'' = None
   \<and> list_all (\<lambda>raw. utf8_decode raw \<noteq> None)
         (readlines (tool_stdout (posix_env [] [] [] ''/root'' (\<lambda>n args. garbage_output))
            (length ([]::world)) [''/usr/bin/my_print_defaults'', ''client'']))
   \<and> garbage_output \<in> set (readlines (tool_stdout (posix_env [] [] [] ''/root'' (\<lambda>n args. garbage_output))
              (length ([]::world)) [''/usr/bin/my_print_defaults'', ''client'']))
   \<and> utf8_decode garbage_output = Some (u garbage_output)
   \<and> 0x3D \<notin> set (drop 2 (u garbage_output))
   \<and> (\<exists>m. fst (get_group_data (posix_env [] [] [] ''/root'' (\<lambda>n args. garbage_output))
                  found_reader [] ''client'') = Inr (Some m)
            \<and> drop 2 (u garbage_output) \<in> dom m)"
proof -
  let ?env = "posix_env [] [] [] ''/root'' (\<lambda>n args. garbage_output)"
  let ?path = "''/usr/bin/my_print_defaults''"
  have h1: "tool_path found_reader = Some ?path" by (simp add: found_reader_def)
  have h2: "?path \<noteq> []" by simp
  have h3: "config_data found_reader ''client'' = None" by (simp add: found_reader_def)
  have h4: "\<forall>raw \<in> set (readlines (tool_stdout ?env (length ([]::world)) [?path, ''client''])).
              utf8_decode raw \<noteq> None"
    by (simp add: posix_env_def garbage_output_def utf8_sequence_def)
  have h5: "garbage_output \<in> set (readlines (tool_stdout ?env (length ([]::world)) [?path, ''client'']))"
    by (simp add: posix_env_def garbage_output_def)
  have h6: "utf8_decode garbage_output = Some (u garbage_output)"
    by (simp add: garbage_output_def utf8_sequence_def u_def)
  have h7: "0x3D \<notin> set (drop 2 (u garbage_output))"
    by (simp add: garbage_output_def u_def)
  have h4': "list_all (\<lambda>raw. utf8_decode raw \<noteq> None)
               (readlines (tool_stdout ?env (length ([]::world)) [?path, ''client'']))"
    using h4 by (simp add: list_all_iff)
  show ?thesis
    using h1 h2 h3 h4' h5 h6 h7 line_without_equals_is_stored [OF h1 h2 h3 h4 h5 h6 h7]
    by blast
qed

section \<open>The login configuration directory\<close>

text \<open>
  Claim C8. \<^verbatim>\<open>my_login_config_path\<close> returns the expansion of \<^verbatim>\<open>~\<close>, the user's home
  directory, when \<^verbatim>\<open>os.name\<close> is \<^verbatim>\<open>posix\<close>. On every other platform, Windows among them, it
  returns the value of \<^verbatim>\<open>APPDATA\<close> followed by \<^verbatim>\<open>\MySQL\<close>, and fails with the \<open>KeyError\<close> of
  the environment lookup when \<^verbatim>\<open>APPDATA\<close> is not set.
\<close>

theorem my_login_config_path_by_platform:
  "(os_name env = ''posix'' \<longrightarrow> my_login_config_path env = Inr (expanduser env ''~''))
   \<and> (os_name env \<noteq> ''posix'' \<longrightarrow>
        (\<forall>appdata. environ env ''APPDATA'' = Some appdata \<longrightarrow>
           my_login_config_path env = Inr (appdata @ [CHR 0x5C] @ ''MySQL''))
        \<and> (environ env ''APPDATA'' = None \<longrightarrow>
             my_login_config_path env = Inl (KeyError ''APPDATA'')))"
  by (simp add: my_login_config_path_def)

theorem my_login_config_path_by_platform_witness:
  "my_login_config_path (posix_env [] [] [] ''/home/user'' (\<lambda>n args. [])) = Inr ''/home/user''
   \<and> my_login_config_path (windows_env [(''APPDATA'', ''C:'' @ [CHR 0x5C] @ ''Roaming'')])
        = Inr (''C:'' @ [CHR 0x5C] @ ''Roaming'' @ [CHR 0x5C] @ ''MySQL'')
   \<and> my_login_config_path (windows_env []) = Inl (KeyError ''APPDATA'')"
  using my_login_config_path_by_platform [of "posix_env [] [] [] ''/home/user'' (\<lambda>n args. [])"]
    my_login_config_path_by_platform [of "windows_env [(''APPDATA'', ''C:'' @ [CHR 0x5C] @ ''Roaming'')]"]
    my_login_config_path_by_platform [of "windows_env []"]
  by (simp add: posix_env_def windows_env_def)

section \<open>The version of the tool\<close>

lemma match_version_iff:
  "match_version s = Some (a, b) \<longleftrightarrow>
     (\<exists>post. s = ''Ver '' @ [a, CHR ''.'', b] @ post) \<and> isdigit a \<and> isdigit b"
  by (cases s rule: match_version.cases) auto

lemma re_search_version_None:
  "re_search_version s = None \<Longrightarrow> s = pre @ ''Ver '' @ [a, CHR ''.'', b] @ post \<Longrightarrow>
   isdigit a \<Longrightarrow> isdigit b \<Longrightarrow> False"
proof (induction s arbitrary: pre)
  case Nil
  then show ?case by simp
next
  case (Cons c cs)
  from Cons.prems(1) have m: "match_version (c # cs) = None" and r: "re_search_version cs = None"
    by (auto split: option.splits)
  show ?case
  proof (cases pre)
    case Nil
    with Cons.prems have "match_version (c # cs) = Some (a, b)"
      by (simp add: match_version_iff)
    with m show ?thesis by simp
  next
    case (Cons p pre')
    with Cons.prems(2) have "cs = pre' @ ''Ver '' @ [a, CHR ''.'', b] @ post" by simp
    from Cons.IH [OF r this Cons.prems(3,4)] show ?thesis .
  qed
qed

lemma re_search_version_Some:
  "re_search_version s = Some (a, b) \<Longrightarrow>
   \<exists>pre post. s = pre @ ''Ver '' @ [a, CHR ''.'', b] @ post \<and> isdigit a \<and> isdigit b
     \<and> (\<forall>pre' a' b' post'. s = pre' @ ''Ver '' @ [a', CHR ''.'', b'] @ post'
            \<and> isdigit a' \<and> isdigit b' \<longrightarrow> length pre \<le> length pre')"
proof (induction s)
  case Nil
  then show ?case by simp
next
  case (Cons c cs)
  show ?case
  proof (cases "match_version (c # cs)")
    case (Some groups)
    with Cons.prems have "match_version (c # cs) = Some (a, b)" by simp
    then obtain post where "c # cs = [] @ ''Ver '' @ [a, CHR ''.'', b] @ post"
      and "isdigit a" and "isdigit b"
      by (auto simp add: match_version_iff)
    then show ?thesis
      by (metis le0 list.size(3))
  next
    case None
    with Cons.prems have "re_search_version cs = Some (a, b)" by simp
    from Cons.IH [OF this] obtain pre post where
      cs: "cs = pre @ ''Ver '' @ [a, CHR ''.'', b] @ post" and d: "isdigit a" "isdigit b"
      and left: "\<And>pre' a' b' post'. cs = pre' @ ''Ver '' @ [a', CHR ''.'', b'] @ post'
            \<Longrightarrow> isdigit a' \<Longrightarrow> isdigit b' \<Longrightarrow> length pre \<le> length pre'"
      by blast
    have "length (c # pre) \<le> length pre'"
      if eq: "c # cs = pre' @ ''Ver '' @ [a', CHR ''.'', b'] @ post'"
        and d': "isdigit a'" "isdigit b'" for pre' a' b' post'
    proof (cases pre')
      case Nil
      with eq d' have "match_version (c # cs) = Some (a', b')"
        by (simp add: match_version_iff)
      with None show ?thesis by simp
    next
      case (Cons q qs)
      with eq have "cs = qs @ ''Ver '' @ [a', CHR ''.'', b'] @ post'" by simp
      from left [OF this d'] Cons show ?thesis by simp
    qed
    moreover have "c # cs = (c # pre) @ ''Ver '' @ [a, CHR ''.'', b] @ post"
      using cs by simp
    ultimately show ?thesis using d by blast
  qed
qed

lemma re_search_version_leftmost:
  assumes "s = pre @ ''Ver '' @ [a, CHR ''.'', b] @ post" and "isdigit a" and "isdigit b"
    and "\<forall>pre' a' b' post'. s = pre' @ ''Ver '' @ [a', CHR ''.'', b'] @ post'
            \<and> isdigit a' \<and> isdigit b' \<longrightarrow> length pre \<le> length pre'"
  shows "re_search_version s = Some (a, b)"
proof (cases "re_search_version s")
  case None
  from re_search_version_None [OF None assms(1,2,3)] show ?thesis ..
next
  case (Some groups)
  obtain a' b' where g: "groups = (a', b')" by (cases groups)
  from re_search_version_Some [OF Some [unfolded g]] obtain pre' post' where
    s': "s = pre' @ ''Ver '' @ [a', CHR ''.'', b'] @ post'" and d': "isdigit a'" "isdigit b'"
    and left': "\<forall>p x y q. s = p @ ''Ver '' @ [x, CHR ''.'', y] @ q
            \<and> isdigit x \<and> isdigit y \<longrightarrow> length pre' \<le> length p"
    by blast
  from left' assms(1,2,3) have "length pre' \<le> length pre" by blast
  moreover from assms(4) s' d' have "length pre \<le> length pre'" by blast
  ultimately have len: "length pre = length pre'" by simp
  from assms(1) s' have "pre @ (''Ver '' @ [a, CHR ''.'', b] @ post)
      = pre' @ (''Ver '' @ [a', CHR ''.'', b'] @ post')" by simp
  with len have "''Ver '' @ [a, CHR ''.'', b] @ post = ''Ver '' @ [a', CHR ''.'', b'] @ post'"
    using append_eq_append_conv by blast
  then have "a = a'" and "b = b'" by simp_all
  with Some g show ?thesis by simp
qed

lemma concat_readlines: "concat (readlines s) = s"
  by (induction s) (auto split: list.split)

lemma readline_prefix: "\<exists>rest. out = readline out @ rest"
proof (cases "readlines out")
  case Nil
  then show ?thesis by (simp add: readline_def)
next
  case (Cons l ls)
  then have "out = l @ concat ls"
    using concat_readlines [of out] by simp
  with Cons show ?thesis by (auto simp add: readline_def)
qed

lemma no_version_in_output:
  assumes "\<forall>pre a b post. out = pre @ ''Ver '' @ [a, CHR ''.'', b] @ post
            \<longrightarrow> \<not> (isdigit a \<and> isdigit b)"
  shows "\<forall>pre a b post. readline out = pre @ ''Ver '' @ [a, CHR ''.'', b] @ post
            \<longrightarrow> \<not> (isdigit a \<and> isdigit b)"
proof (intro allI impI)
  fix pre a b post
  assume l: "readline out = pre @ ''Ver '' @ [a, CHR ''.'', b] @ post"
  obtain rest where "out = readline out @ rest"
    using readline_prefix by blast
  with l have "out = pre @ ''Ver '' @ [a, CHR ''.'', b] @ (post @ rest)" by simp
  with assms show "\<not> (isdigit a \<and> isdigit b)" by blast
qed

text \<open>
  On Python 2, with the tool path set, \<^verbatim>\<open>check_tool_version\<close> reads the first line of the
  output of \<^verbatim>\<open>--version\<close>. Where \<^verbatim>\<open>Ver a.b\<close> with digits \<open>a\<close> and \<open>b\<close> is the leftmost
  occurrence of the pattern in that line, the result is whether the requested pair is at
  most \<open>(a, b)\<close> in the lexicographic order of pairs: true when the tool is newer or equal,
  false when it is older. Where the line has no occurrence of the pattern, and so where the
  whole output has none, the call fails with a \<open>UtilError\<close>.
\<close>

lemma check_tool_version_python2:
  assumes "tool_path r = Some path" and "path \<noteq> []" and "interpreter env = Python2"
  shows
    "(\<forall>pre a b post.
        readline (tool_stdout env (length w) [path, ''--version''])
          = pre @ ''Ver '' @ [a, CHR ''.'', b] @ post
        \<and> isdigit a \<and> isdigit b
        \<and> (\<forall>pre' a' b' post'.
              readline (tool_stdout env (length w) [path, ''--version''])
                = pre' @ ''Ver '' @ [a', CHR ''.'', b'] @ post'
              \<and> isdigit a' \<and> isdigit b' \<longrightarrow> length pre \<le> length pre')
        \<longrightarrow> fst (check_tool_version env r w major_version minor_version)
              = Inr ((major_version, minor_version) \<le> (digit_value a, digit_value b)))
     \<and> ((\<forall>pre a b post.
            readline (tool_stdout env (length w) [path, ''--version''])
              = pre @ ''Ver '' @ [a, CHR ''.'', b] @ post
            \<longrightarrow> \<not> (isdigit a \<and> isdigit b))
          \<longrightarrow> fst (check_tool_version env r w major_version minor_version)
                = Inl (UtilError (u ''Unable to determine tool version - '' @ u path)))
     \<and> ((\<forall>pre a b post.
            tool_stdout env (length w) [path, ''--version'']
              = pre @ ''Ver '' @ [a, CHR ''.'', b] @ post
            \<longrightarrow> \<not> (isdigit a \<and> isdigit b))
          \<longrightarrow> fst (check_tool_version env r w major_version minor_version)
                = Inl (UtilError (u ''Unable to determine tool version - '' @ u path)))"
proof (intro conjI allI impI)
  let ?line = "readline (tool_stdout env (length w) [path, ''--version''])"
  fix pre a b post
  assume h: "?line = pre @ ''Ver '' @ [a, CHR ''.'', b] @ post
        \<and> isdigit a \<and> isdigit b
        \<and> (\<forall>pre' a' b' post'. ?line = pre' @ ''Ver '' @ [a', CHR ''.'', b'] @ post'
              \<and> isdigit a' \<and> isdigit b' \<longrightarrow> length pre \<le> length pre')"
  then have "re_search_version ?line = Some (a, b)"
    using re_search_version_leftmost [of ?line pre a b post] by blast
  with assms show "fst (check_tool_version env r w major_version minor_version)
      = Inr ((major_version, minor_version) \<le> (digit_value a, digit_value b))"
    by (auto simp add: check_tool_version_def run_tool_def subprocess_call_def Let_def
          less_eq_prod_def)
next
  let ?line = "readline (tool_stdout env (length w) [path, ''--version''])"
  assume h: "\<forall>pre a b post. ?line = pre @ ''Ver '' @ [a, CHR ''.'', b] @ post
            \<longrightarrow> \<not> (isdigit a \<and> isdigit b)"
  have "re_search_version ?line = None"
  proof (cases "re_search_version ?line")
    case None
    then show ?thesis .
  next
    case (Some groups)
    obtain a b where "groups = (a, b)" by (cases groups)
    with Some re_search_version_Some [of ?line a b] h show ?thesis by blast
  qed
  with assms show "fst (check_tool_version env r w major_version minor_version)
      = Inl (UtilError (u ''Unable to determine tool version - '' @ u path))"
    by (simp add: check_tool_version_def run_tool_def subprocess_call_def Let_def)
next
  let ?out = "tool_stdout env (length w) [path, ''--version'']"
  assume "\<forall>pre a b post. ?out = pre @ ''Ver '' @ [a, CHR ''.'', b] @ post
            \<longrightarrow> \<not> (isdigit a \<and> isdigit b)"
  then have h: "\<forall>pre a b post. readline ?out = pre @ ''Ver '' @ [a, CHR ''.'', b] @ post
            \<longrightarrow> \<not> (isdigit a \<and> isdigit b)"
    by (rule no_version_in_output)
  have "re_search_version (readline ?out) = None"
  proof (cases "re_search_version (readline ?out)")
    case None
    then show ?thesis .
  next
    case (Some groups)
    obtain a b where "groups = (a, b)" by (cases groups)
    with Some re_search_version_Some [of "readline ?out" a b] h show ?thesis by blast
  qed
  with assms show "fst (check_tool_version env r w major_version minor_version)
      = Inl (UtilError (u ''Unable to determine tool version - '' @ u path))"
    by (simp add: check_tool_version_def run_tool_def subprocess_call_def Let_def)
qed


lemma re_search_version_fixtures:
  "re_search_version (readline (tool_stdout (on_python2 (version_env ''my_print_defaults Ver 5.7 for Linux''))
      (length ([]::world)) [''/usr/bin/my_print_defaults'', ''--version''])) = Some (CHR ''5'', CHR ''7'')"
  "re_search_version (readline (tool_stdout (on_python2 (version_env ''my_print_defaults Ver 5.5 for Linux''))
      (length ([]::world)) [''/usr/bin/my_print_defaults'', ''--version''])) = Some (CHR ''5'', CHR ''5'')"
  "re_search_version (readline (tool_stdout (on_python2 (version_env ''my_print_defaults for Linux''))
      (length ([]::world)) [''/usr/bin/my_print_defaults'', ''--version''])) = None"
  by (simp_all add: on_python2_def version_env_def posix_env_def readline_def isdigit_def)

lemma check_tool_version_python2_examples:
  "fst (check_tool_version (on_python2 (version_env ''my_print_defaults Ver 5.7 for Linux''))
          found_reader [] 5 6) = Inr True
   \<and> fst (check_tool_version (on_python2 (version_env ''my_print_defaults Ver 5.5 for Linux''))
          found_reader [] 5 6) = Inr False
   \<and> fst (check_tool_version (on_python2 (version_env ''my_print_defaults for Linux''))
          found_reader [] 5 6)
       = Inl (UtilError (u ''Unable to determine tool version - ''
                         @ u ''/usr/bin/my_print_defaults''))"
proof -
  let ?path = "''/usr/bin/my_print_defaults''"
  have tp: "tool_path found_reader = Some ?path" and ne: "?path \<noteq> []"
    by (simp_all add: found_reader_def)
  have py: "interpreter (on_python2 env) = Python2" for env
    by (simp add: on_python2_def)
  have newer: "fst (check_tool_version (on_python2 (version_env ''my_print_defaults Ver 5.7 for Linux''))
          found_reader [] 5 6) = Inr ((5::int, 6::int) \<le> (digit_value CHR ''5'', digit_value CHR ''7''))"
    using re_search_version_Some [OF re_search_version_fixtures(1)]
      check_tool_version_python2 [where env = "on_python2 (version_env ''my_print_defaults Ver 5.7 for Linux'')"
        and r = found_reader and path = ?path and w = "[]" and major_version = 5
        and minor_version = 6, OF tp ne py, THEN conjunct1]
    by blast
  have older: "fst (check_tool_version (on_python2 (version_env ''my_print_defaults Ver 5.5 for Linux''))
          found_reader [] 5 6) = Inr ((5::int, 6::int) \<le> (digit_value CHR ''5'', digit_value CHR ''5''))"
    using re_search_version_Some [OF re_search_version_fixtures(2)]
      check_tool_version_python2 [where env = "on_python2 (version_env ''my_print_defaults Ver 5.5 for Linux'')"
        and r = found_reader and path = ?path and w = "[]" and major_version = 5
        and minor_version = 6, OF tp ne py, THEN conjunct1]
    by blast
  have absent: "fst (check_tool_version (on_python2 (version_env ''my_print_defaults for Linux''))
          found_reader [] 5 6)
       = Inl (UtilError (u ''Unable to determine tool version - '' @ u ?path))"
    using re_search_version_None [OF re_search_version_fixtures(3)]
      check_tool_version_python2 [where env = "on_python2 (version_env ''my_print_defaults for Linux'')"
        and r = found_reader and path = ?path and w = "[]" and major_version = 5
        and minor_version = 6, OF tp ne py, THEN conjunct2, THEN conjunct1]
    by blast
  show ?thesis
    using newer older absent by (simp add: less_eq_prod_def digit_value_def)
qed

text \<open>
  On Python 3, with the tool path set, the tool is run and the call fails with
  \<open>TypeError\<close>, for every requested version and every output of the tool.
\<close>

lemma check_tool_version_python3:
  assumes "tool_path r = Some path" and "path \<noteq> []" and "interpreter env = Python3"
  shows "check_tool_version env r w major_version minor_version
     = (Inl TypeError,
        w @ [\<lparr>argv = [path, ''--version''], stderr_null = \<not> (0 < verbosity r)\<rparr>])"
  using assms
  by (simp add: check_tool_version_def run_tool_def subprocess_call_def Let_def)

text \<open>
  Claim C6. On a platform with Python 3, \<^verbatim>\<open>check_tool_version(5, 6)\<close> does not return true
  for a tool that prints \<^verbatim>\<open>Ver 5.7\<close>, does not return false for one that prints
  \<^verbatim>\<open>Ver 5.5\<close>, and does not fail with a \<open>UtilError\<close> for one that prints no version: in all
  three cases it fails with \<open>TypeError\<close>, because the line is \<^verbatim>\<open>bytes\<close> and the pattern a
  \<^verbatim>\<open>str\<close>. On Python 2 the same three calls give true, false and the \<open>UtilError\<close>
  (\<open>check_tool_version_python2_examples\<close>).
\<close>

theorem check_tool_version_python3_TypeError:
  "fst (check_tool_version (version_env ''my_print_defaults Ver 5.7 for Linux'')
          found_reader [] 5 6) = Inl TypeError
   \<and> fst (check_tool_version (version_env ''my_print_defaults Ver 5.5 for Linux'')
          found_reader [] 5 6) = Inl TypeError
   \<and> fst (check_tool_version (version_env ''my_print_defaults for Linux'')
          found_reader [] 5 6) = Inl TypeError"
  by (simp add: check_tool_version_def run_tool_def subprocess_call_def
        version_env_def posix_env_def found_reader_def)

section \<open>The search for the tool\<close>

lemma later_simps [simp]:
  "fst (later ps r) = ps @ fst r" "snd (later ps r) = snd r"
  by (simp_all add: later_def)

lemma later_later: "later ps (later qs r) = later (ps @ qs) r"
  by (simp add: later_def)

lemma later_pair: "later ps (qs, x) = (ps @ qs, x)"
  by (simp add: later_def)

lemma search_loop_hit:
  "holds_tool env tool path \<Longrightarrow>
   search_loop env tool (path # rest)
     = ([IsDir (normpath env path), IsFile (path_join env (normpath env path) tool)],
        Some (path_join env (normpath env path) tool))"
  by (simp add: holds_tool_def Let_def)

lemma search_loop_miss_step:
  "\<not> holds_tool env tool path \<Longrightarrow> \<not> holds_legacy env tool path \<Longrightarrow>
   \<exists>ps. (\<forall>rest. search_loop env tool (path # rest) = later ps (search_loop env tool rest))
      \<and> (\<forall>pr\<in>set ps. probes_at env path pr) \<and> length (filter is_IsDir ps) = 1"
proof (cases "isdir env (normpath env path)")
  case False
  then have "\<forall>rest. search_loop env tool (path # rest)
      = later [IsDir (normpath env path)] (search_loop env tool rest)"
    by simp
  then show ?thesis
    by (rule_tac x = "[IsDir (normpath env path)]" in exI) (simp add: probes_at_def)
next
  case True
  assume a: "\<not> holds_tool env tool path" "\<not> holds_legacy env tool path"
  show ?thesis
  proof (cases "tool = ''mysqld.exe''")
    case False
    with True a have "\<forall>rest. search_loop env tool (path # rest)
      = later [IsDir (normpath env path), IsFile (path_join env (normpath env path) tool)]
          (search_loop env tool rest)"
      by (simp add: holds_tool_def Let_def)
    then show ?thesis
      by (rule_tac x = "[IsDir (normpath env path),
            IsFile (path_join env (normpath env path) tool)]" in exI)
         (auto simp add: probes_at_def)
  next
    case mysqld: True
    with True a have "\<forall>rest. search_loop env tool (path # rest)
      = later [IsDir (normpath env path), IsFile (path_join env (normpath env path) tool),
               IsFile (path_join env (normpath env path) ''mysqld-nt.exe'')]
          (search_loop env tool rest)"
      by (simp add: holds_tool_def holds_legacy_def Let_def)
    then show ?thesis
      by (rule_tac x = "[IsDir (normpath env path),
            IsFile (path_join env (normpath env path) tool),
            IsFile (path_join env (normpath env path) ''mysqld-nt.exe'')]" in exI)
         (auto simp add: probes_at_def)
  qed
qed

lemma search_loop_misses:
  "\<forall>path\<in>set xs. \<not> holds_tool env tool path \<and> \<not> holds_legacy env tool path \<Longrightarrow>
   \<exists>ps. (\<forall>ys. search_loop env tool (xs @ ys) = later ps (search_loop env tool ys))
      \<and> (\<forall>pr\<in>set ps. \<exists>path\<in>set xs. probes_at env path pr)
      \<and> length (filter is_IsDir ps) = length xs"
proof (induction xs)
  case Nil
  have "\<forall>ys. search_loop env tool ([] @ ys) = later [] (search_loop env tool ys)"
    by (simp add: later_def)
  then show ?case by fastforce
next
  case (Cons x xs)
  then obtain ps where ps:
      "\<And>ys. search_loop env tool (xs @ ys) = later ps (search_loop env tool ys)"
      "\<forall>pr\<in>set ps. \<exists>path\<in>set xs. probes_at env path pr"
      "length (filter is_IsDir ps) = length xs"
    by auto
  from Cons.prems obtain qs where qs:
      "\<And>rest. search_loop env tool (x # rest) = later qs (search_loop env tool rest)"
      "\<forall>pr\<in>set qs. probes_at env x pr" "length (filter is_IsDir qs) = 1"
    using search_loop_miss_step [of env tool x] by auto
  have "\<forall>ys. search_loop env tool ((x # xs) @ ys) = later (qs @ ps) (search_loop env tool ys)"
    using ps(1) qs(1) by (simp add: later_later)
  moreover have "\<forall>pr\<in>set (qs @ ps). \<exists>path\<in>set (x # xs). probes_at env path pr"
    using ps(2) qs(2) by auto
  moreover have "length (filter is_IsDir (qs @ ps)) = length (x # xs)"
    using ps(3) qs(3) by simp
  ultimately show ?case by blast
qed

lemma search_loop_none:
  assumes "\<forall>path\<in>set sp. \<not> holds_tool env tool path \<and> \<not> holds_legacy env tool path"
  shows "snd (search_loop env tool sp) = None"
proof -
  from search_loop_misses [OF assms] obtain ps
    where "search_loop env tool (sp @ []) = later ps (search_loop env tool [])" by blast
  then show ?thesis by simp
qed

lemma search_loop_probes:
  "pr \<in> set (fst (search_loop env tool sp)) \<Longrightarrow> \<exists>path\<in>set sp. probes_at env path pr"
proof (induction sp)
  case Nil
  then show ?case by simp
next
  case (Cons x xs)
  then show ?case
    by (auto simp add: Let_def probes_at_def split: if_splits)
qed

lemma search_loop_first_match:
  assumes "n < length sp"
    and "holds_tool env tool (sp ! n)"
    and "\<forall>i<n. \<not> holds_tool env tool (sp ! i) \<and> \<not> holds_legacy env tool (sp ! i)"
  shows "snd (search_loop env tool sp) = Some (path_join env (normpath env (sp ! n)) tool)
    \<and> search_loop env tool sp = search_loop env tool (take (Suc n) sp)
    \<and> (\<forall>pr\<in>set (fst (search_loop env tool sp)). \<exists>i\<le>n. probes_at env (sp ! i) pr)
    \<and> length (filter is_IsDir (fst (search_loop env tool sp))) = Suc n"
proof -
  let ?dir = "normpath env (sp ! n)"
  let ?hit = "[IsDir ?dir, IsFile (path_join env ?dir tool)]"
  have split: "sp = take n sp @ sp ! n # drop (Suc n) sp"
    using assms(1) by (rule id_take_nth_drop)
  have split': "take (Suc n) sp = take n sp @ [sp ! n]"
    using assms(1) by (rule take_Suc_conv_app_nth)
  have miss: "\<forall>path\<in>set (take n sp). \<not> holds_tool env tool path \<and> \<not> holds_legacy env tool path"
    using assms(1,3) by (auto simp add: in_set_conv_nth)
  from search_loop_misses [OF miss] obtain ps where
    ps: "\<And>ys. search_loop env tool (take n sp @ ys) = later ps (search_loop env tool ys)"
      "\<forall>pr\<in>set ps. \<exists>path\<in>set (take n sp). probes_at env path pr"
      "length (filter is_IsDir ps) = length (take n sp)"
    by blast
  have "search_loop env tool sp = later ps (search_loop env tool (sp ! n # drop (Suc n) sp))"
    using ps(1) [of "sp ! n # drop (Suc n) sp"] split by simp
  then have full: "search_loop env tool sp = (ps @ ?hit, Some (path_join env ?dir tool))"
    by (simp add: search_loop_hit [OF assms(2)] later_pair del: search_loop.simps)
  have "search_loop env tool (take (Suc n) sp) = later ps (search_loop env tool [sp ! n])"
    using ps(1) [of "[sp ! n]"] split' by simp
  then have trunc: "search_loop env tool (take (Suc n) sp)
      = (ps @ ?hit, Some (path_join env ?dir tool))"
    by (simp add: search_loop_hit [OF assms(2)] later_pair del: search_loop.simps)
  have early: "\<exists>i\<le>n. probes_at env (sp ! i) pr" if "pr \<in> set ps" for pr
  proof -
    from ps(2) that obtain path where "path \<in> set (take n sp)" "probes_at env path pr"
      by blast
    then obtain i where "i < n" "i < length sp" "path = sp ! i"
      by (auto simp add: in_set_conv_nth)
    with \<open>probes_at env path pr\<close> show ?thesis
      by (metis less_imp_le_nat)
  qed
  have here: "\<exists>i\<le>n. probes_at env (sp ! i) pr" if "pr \<in> set ?hit" for pr
    using that by (auto simp add: probes_at_def)
  have "\<forall>pr\<in>set (ps @ ?hit). \<exists>i\<le>n. probes_at env (sp ! i) pr"
    using early here by (metis Un_iff set_append)
  moreover have "length (filter is_IsDir (ps @ ?hit)) = Suc n"
    using ps(3) assms(1) by simp
  ultimately show ?thesis
    using full trunc by simp
qed


lemmas path_simps =
  posix_env_def posix_normpath_def posix_join_def normpath_step_def Let_def

lemma add_basedir_path_probe: "add_basedir env sp b = sp @ path_probe env b"
  by (simp add: add_basedir_def path_probe_def)

lemma search_paths_fallbacks_lemma:
  assumes "search_PATH \<longrightarrow> environ env ''PATH'' = Some v"
  shows "(\<forall>dp. defaults_paths = Some dp \<and> dp \<noteq> [] \<longrightarrow>
            search_paths env base defaults_paths search_PATH
              = Inr (basedir_candidates env base @ dp @ PATH_candidates env search_PATH v))
     \<and> (defaults_paths = None \<or> defaults_paths = Some [] \<longrightarrow>
            search_paths env base defaults_paths search_PATH
              = Inr (basedir_candidates env base
                     @ path_probe env ''/usr/local/mysql/''
                     @ path_probe env ''/usr/sbin/''
                     @ path_probe env ''/usr/share/''
                     @ PATH_candidates env search_PATH v))"
  using assms
  by (auto simp add: search_paths_def basedir_candidates_def PATH_candidates_def
        add_basedir_path_probe Let_def split: option.split)

lemma get_tool_path_probes:
  "search_paths env base defaults_paths search_PATH = Inr sp \<Longrightarrow>
   fst (get_tool_path env base tool fix_ext required defaults_paths search_PATH)
     = fst (search_loop env (fixed_tool env tool fix_ext) sp)"
  by (simp add: get_tool_path_def Let_def split: option.split)

lemma get_tool_path_KeyError:
  "search_paths env base defaults_paths search_PATH = Inl e \<Longrightarrow>
   get_tool_path env base tool fix_ext required defaults_paths search_PATH = ([], Inl e)"
  by (simp add: get_tool_path_def)

lemma get_tool_path_errors:
  "snd (get_tool_path env base tool fix_ext required defaults_paths search_PATH) = Inl e \<Longrightarrow>
   e = KeyError ''PATH'' \<or> (\<exists>msg. e = UtilError msg)"
  by (auto simp add: get_tool_path_def search_paths_def Let_def
        split: sum.splits option.splits if_splits)

lemma discovery_unfold:
  "my_login_config_path env = Inr cfg \<Longrightarrow>
   fst (search_my_print_defaults_tool env r extra)
     = fst (get_tool_path env (basedir r) MY_PRINT_DEFAULTS_TOOL True True
              (Some (cfg # (case extra of None \<Rightarrow> [] | Some ps \<Rightarrow> ps))) True)"
  by (auto simp add: search_my_print_defaults_tool_def Let_def
        split: prod.split sum.split error.split option.split)

text \<open>
  Claim C3, as stated: for every tool name, the first candidate directory that holds the
  tool's file decides the result. For the name \<^verbatim>\<open>mysqld.exe\<close> it does not: an earlier
  directory that holds \<^verbatim>\<open>mysqld-nt.exe\<close> wins.
\<close>

theorem legacy_name_counterexample:
  "search_paths legacy_env None (Some [''/opt/a'', ''/opt/b'']) False
      = Inr [''/opt/a'', ''/opt/b'']
   \<and> isdir legacy_env (normpath legacy_env ''/opt/b'')
   \<and> isfile legacy_env (path_join legacy_env (normpath legacy_env ''/opt/b'') ''mysqld.exe'')
   \<and> \<not> isfile legacy_env (path_join legacy_env (normpath legacy_env ''/opt/a'') ''mysqld.exe'')
   \<and> snd (get_tool_path legacy_env None ''mysqld.exe'' True True
             (Some [''/opt/a'', ''/opt/b'']) False)
       = Inr (Some ''/opt/a/mysqld-nt.exe'')"
  by (simp add: search_paths_def get_tool_path_def fixed_tool_def legacy_env_def path_simps)

text \<open>
  Claim C3, amended. Let the candidate list be built, let its \<open>n\<close>-th entry hold the tool
  under the name searched for (the tool name, with \<^verbatim>\<open>.exe\<close> appended on Windows when asked
  for), and let no earlier entry hold it under that name or, for \<^verbatim>\<open>mysqld.exe\<close>, under the
  legacy name. Then \<^verbatim>\<open>get_tool_path\<close> returns the name joined to the normalised \<open>n\<close>-th
  entry, whatever \<^verbatim>\<open>required\<close> is; its file-system tests are those of the search over the
  first \<open>n + 1\<close> entries alone, each of them at one of these entries, with exactly
  \<open>n + 1\<close> directory tests. Entries that are not directories are passed over without an
  error.
\<close>

theorem get_tool_path_first_match:
  assumes "search_paths env base defaults_paths search_PATH = Inr sp"
    and "n < length sp"
    and "holds_tool env (fixed_tool env tool fix_ext) (sp ! n)"
    and "\<forall>i<n. \<not> holds_tool env (fixed_tool env tool fix_ext) (sp ! i)
              \<and> \<not> holds_legacy env (fixed_tool env tool fix_ext) (sp ! i)"
  shows "snd (get_tool_path env base tool fix_ext required defaults_paths search_PATH)
           = Inr (Some (path_join env (normpath env (sp ! n)) (fixed_tool env tool fix_ext)))
     \<and> fst (get_tool_path env base tool fix_ext required defaults_paths search_PATH)
           = fst (search_loop env (fixed_tool env tool fix_ext) (take (Suc n) sp))
     \<and> (\<forall>pr\<in>set (fst (get_tool_path env base tool fix_ext required defaults_paths
                          search_PATH)).
           \<exists>i\<le>n. probes_at env (sp ! i) pr)
     \<and> length (filter is_IsDir
          (fst (get_tool_path env base tool fix_ext required defaults_paths search_PATH)))
         = Suc n"
proof -
  let ?tool = "fixed_tool env tool fix_ext"
  note m = search_loop_first_match [OF assms(2,3,4)]
  from m have found: "snd (search_loop env ?tool sp)
      = Some (path_join env (normpath env (sp ! n)) ?tool)" by (rule conjunct1)
  from m have same: "search_loop env ?tool sp = search_loop env ?tool (take (Suc n) sp)"
    by (elim conjE)
  from m have at: "\<forall>pr\<in>set (fst (search_loop env ?tool sp)). \<exists>i\<le>n. probes_at env (sp ! i) pr"
    by (elim conjE)
  from m have count: "length (filter is_IsDir (fst (search_loop env ?tool sp))) = Suc n"
    by (elim conjE)
  have res: "snd (get_tool_path env base tool fix_ext required defaults_paths search_PATH)
      = Inr (Some (path_join env (normpath env (sp ! n)) ?tool))"
    using assms(1) found by (simp add: get_tool_path_def Let_def)
  have trace: "fst (get_tool_path env base tool fix_ext required defaults_paths search_PATH)
      = fst (search_loop env ?tool sp)"
    using assms(1) found by (simp add: get_tool_path_def Let_def)
  show ?thesis
    unfolding res trace using same at count by (intro conjI) simp_all
qed

theorem get_tool_path_first_match_witness:
  "get_tool_path client_env None ''my_print_defaults'' True True
      (Some [''/home/user'', ''/nonexistent'']) True
    = ([IsDir ''/home/user'', IsFile ''/home/user/my_print_defaults'',
        IsDir ''/nonexistent'', IsDir ''/usr/local/bin'',
        IsDir ''/usr/bin'', IsFile ''/usr/bin/my_print_defaults''],
       Inr (Some ''/usr/bin/my_print_defaults''))"
proof -
  let ?sp = "[''/home/user'', ''/nonexistent'', ''/usr/local/bin'', ''/usr/bin'', ''/bin'']"
  have sp: "search_paths client_env None (Some [''/home/user'', ''/nonexistent'']) True = Inr ?sp"
    by (simp add: search_paths_def client_env_def posix_env_def)
  have n: "3 < length ?sp" by simp
  have tool: "fixed_tool client_env ''my_print_defaults'' True = ''my_print_defaults''"
    by (simp add: fixed_tool_def client_env_def posix_env_def)
  have hit: "holds_tool client_env (fixed_tool client_env ''my_print_defaults'' True) (?sp ! 3)"
    unfolding tool by (simp add: holds_tool_def client_env_def path_simps)
  have miss: "\<forall>i<3. \<not> holds_tool client_env (fixed_tool client_env ''my_print_defaults'' True) (?sp ! i)
              \<and> \<not> holds_legacy client_env (fixed_tool client_env ''my_print_defaults'' True) (?sp ! i)"
    unfolding tool
    by (simp add: holds_tool_def holds_legacy_def client_env_def path_simps
          numeral_3_eq_3 less_Suc_eq)
  from get_tool_path_first_match [OF sp n hit miss, of True]
  have "snd (get_tool_path client_env None ''my_print_defaults'' True True
               (Some [''/home/user'', ''/nonexistent'']) True)
          = Inr (Some (path_join client_env (normpath client_env (?sp ! 3))
                         (fixed_tool client_env ''my_print_defaults'' True)))"
    and "fst (get_tool_path client_env None ''my_print_defaults'' True True
               (Some [''/home/user'', ''/nonexistent'']) True)
          = fst (search_loop client_env (fixed_tool client_env ''my_print_defaults'' True)
                   (take (Suc 3) ?sp))"
    by blast+
  then show ?thesis
    unfolding tool
    by (simp add: prod_eq_iff client_env_def path_simps later_def)
qed

text \<open>
  Claim C7. When the candidate list is built and no entry holds the tool, under the name
  searched for or the legacy name, \<^verbatim>\<open>get_tool_path\<close> with \<^verbatim>\<open>required\<close> true fails with the
  \<open>UtilError\<close> ``Cannot find location of'' followed by the name searched for, which begins
  with the tool name; with \<^verbatim>\<open>required\<close> false it returns \<open>None\<close> and no error.
\<close>

theorem get_tool_path_nothing_found:
  assumes "search_paths env base defaults_paths search_PATH = Inr sp"
    and "\<forall>path\<in>set sp. \<not> holds_tool env (fixed_tool env tool fix_ext) path
              \<and> \<not> holds_legacy env (fixed_tool env tool fix_ext) path"
  shows "snd (get_tool_path env base tool fix_ext True defaults_paths search_PATH)
           = Inl (UtilError (u ''Cannot find location of ''
                             @ u (fixed_tool env tool fix_ext) @ u ''.''))
     \<and> (\<exists>ext. fixed_tool env tool fix_ext = tool @ ext)
     \<and> snd (get_tool_path env base tool fix_ext False defaults_paths search_PATH)
           = Inr None"
proof -
  have "snd (search_loop env (fixed_tool env tool fix_ext) sp) = None"
    using assms(2) by (rule search_loop_none)
  moreover have "\<exists>ext. fixed_tool env tool fix_ext = tool @ ext"
    by (simp add: fixed_tool_def)
  ultimately show ?thesis
    using assms(1) by (simp add: get_tool_path_def Let_def)
qed

theorem get_tool_path_nothing_found_witness:
  "snd (get_tool_path client_env None ''mysqldump'' True True (Some [''/home/user'']) True)
     = Inl (UtilError (u ''Cannot find location of mysqldump.''))
   \<and> snd (get_tool_path client_env None ''mysqldump'' True False (Some [''/home/user'']) True)
     = Inr None"
proof -
  let ?sp = "[''/home/user'', ''/usr/local/bin'', ''/usr/bin'', ''/bin'']"
  have sp: "search_paths client_env None (Some [''/home/user'']) True = Inr ?sp"
    by (simp add: search_paths_def client_env_def posix_env_def)
  have tool: "fixed_tool client_env ''mysqldump'' True = ''mysqldump''"
    by (simp add: fixed_tool_def client_env_def posix_env_def)
  have miss: "\<forall>path\<in>set ?sp. \<not> holds_tool client_env (fixed_tool client_env ''mysqldump'' True) path
              \<and> \<not> holds_legacy client_env (fixed_tool client_env ''mysqldump'' True) path"
    unfolding tool
    by (simp add: holds_tool_def holds_legacy_def client_env_def path_simps)
  from get_tool_path_nothing_found [OF sp miss] show ?thesis
    unfolding tool by (simp add: u_def)
qed


text \<open>
  Claim C4, as stated: whenever \<^verbatim>\<open>defaults_paths\<close> is supplied, no built-in fallback is a
  candidate. A supplied empty list is treated as absent, and all three expansions are
  candidates.
\<close>

theorem empty_defaults_counterexample:
  "search_paths client_env None (Some []) False
     = Inr [''/usr/local/mysql/'', ''/usr/local/mysql/sql'', ''/usr/local/mysql/client'',
            ''/usr/local/mysql/share'', ''/usr/local/mysql/scripts'', ''/usr/local/mysql/bin'',
            ''/usr/local/mysql/libexec'', ''/usr/local/mysql/mysql'',
            ''/usr/sbin/'', ''/usr/sbin/sql'', ''/usr/sbin/client'', ''/usr/sbin/share'',
            ''/usr/sbin/scripts'', ''/usr/sbin/bin'', ''/usr/sbin/libexec'', ''/usr/sbin/mysql'',
            ''/usr/share/'', ''/usr/share/sql'', ''/usr/share/client'', ''/usr/share/share'',
            ''/usr/share/scripts'', ''/usr/share/bin'', ''/usr/share/libexec'',
            ''/usr/share/mysql'']"
  by (simp add: search_paths_def add_basedir_def client_env_def posix_env_def posix_join_def)

text \<open>
  Claim C4, amended. Let \<^verbatim>\<open>PATH\<close> be set when it is to be searched. When \<^verbatim>\<open>defaults_paths\<close>
  is supplied and not empty, the candidate list is the contribution of \<^verbatim>\<open>basedir\<close>, then
  \<^verbatim>\<open>defaults_paths\<close> as given, then the entries of \<^verbatim>\<open>PATH\<close> when asked for: the built-in
  fallbacks contribute nothing. When \<^verbatim>\<open>defaults_paths\<close> is absent or empty, the expansions of
  \<^verbatim>\<open>/usr/local/mysql/\<close>, \<^verbatim>\<open>/usr/sbin/\<close> and \<^verbatim>\<open>/usr/share/\<close>, in this order, follow the
  contribution of \<^verbatim>\<open>basedir\<close>.
\<close>

theorem search_paths_fallbacks:
  assumes "search_PATH \<longrightarrow> environ env ''PATH'' = Some v"
  shows "(\<forall>dp. defaults_paths = Some dp \<and> dp \<noteq> [] \<longrightarrow>
            search_paths env base defaults_paths search_PATH
              = Inr (basedir_candidates env base @ dp @ PATH_candidates env search_PATH v))
     \<and> (defaults_paths = None \<or> defaults_paths = Some [] \<longrightarrow>
            search_paths env base defaults_paths search_PATH
              = Inr (basedir_candidates env base
                     @ path_probe env ''/usr/local/mysql/''
                     @ path_probe env ''/usr/sbin/''
                     @ path_probe env ''/usr/share/''
                     @ PATH_candidates env search_PATH v))"
  using assms by (rule search_paths_fallbacks_lemma)

theorem search_paths_fallbacks_witness:
  "search_paths client_env (Some ''/opt/mysql'') (Some [''/home/user'']) True
     = Inr ([''/opt/mysql'', ''/opt/mysql/sql'', ''/opt/mysql/client'', ''/opt/mysql/share'',
             ''/opt/mysql/scripts'', ''/opt/mysql/bin'', ''/opt/mysql/libexec'',
             ''/opt/mysql/mysql'']
            @ [''/home/user''] @ [''/usr/local/bin'', ''/usr/bin'', ''/bin''])
   \<and> search_paths client_env (Some ''/opt/mysql'') None True
     = Inr ([''/opt/mysql'', ''/opt/mysql/sql'', ''/opt/mysql/client'', ''/opt/mysql/share'',
             ''/opt/mysql/scripts'', ''/opt/mysql/bin'', ''/opt/mysql/libexec'',
             ''/opt/mysql/mysql'']
            @ path_probe client_env ''/usr/local/mysql/''
            @ path_probe client_env ''/usr/sbin/''
            @ path_probe client_env ''/usr/share/''
            @ [''/usr/local/bin'', ''/usr/bin'', ''/bin''])"
proof -
  have p: "True \<longrightarrow> environ client_env ''PATH'' = Some ''/usr/local/bin:/usr/bin:/bin''"
    by (simp add: client_env_def posix_env_def)
  from search_paths_fallbacks [OF p, of "Some [''/home/user'']" "Some ''/opt/mysql''"]
    search_paths_fallbacks [OF p, of None "Some ''/opt/mysql''"]
  show ?thesis
    by (simp add: basedir_candidates_def PATH_candidates_def path_probe_def client_env_def
          posix_env_def posix_join_def)
qed


text \<open>
  Claim C10, as stated: discovery never probes a built-in fallback base, for every
  \<^verbatim>\<open>basedir\<close>. A reader whose \<^verbatim>\<open>basedir\<close> is \<^verbatim>\<open>/usr/sbin/\<close> has the expansion of that base
  among its candidates and tests \<^verbatim>\<open>/usr/sbin\<close>.
\<close>

theorem discovery_probes_named_fallback_counterexample:
  "search_paths client_env (basedir (fresh_reader (Some ''/usr/sbin/'')))
       (Some [''/home/user'']) True
     = Inr ([''/usr/sbin/'', ''/usr/sbin/sql'', ''/usr/sbin/client'', ''/usr/sbin/share'',
             ''/usr/sbin/scripts'', ''/usr/sbin/bin'', ''/usr/sbin/libexec'', ''/usr/sbin/mysql'']
            @ [''/home/user'', ''/usr/local/bin'', ''/usr/bin'', ''/bin''])
   \<and> fst (search_my_print_defaults_tool client_env (fresh_reader (Some ''/usr/sbin/'')) None)
     = [IsDir ''/usr/sbin'', IsDir ''/usr/sbin/sql'', IsDir ''/usr/sbin/client'',
        IsDir ''/usr/sbin/share'', IsDir ''/usr/sbin/scripts'', IsDir ''/usr/sbin/bin'',
        IsDir ''/usr/sbin/libexec'', IsDir ''/usr/sbin/mysql'',
        IsDir ''/home/user'', IsFile ''/home/user/my_print_defaults'',
        IsDir ''/usr/local/bin'', IsDir ''/usr/bin'', IsFile ''/usr/bin/my_print_defaults'']"
  by (simp add: search_my_print_defaults_tool_def my_login_config_path_def
        get_tool_path_def search_paths_def add_basedir_def fixed_tool_def
        MY_PRINT_DEFAULTS_TOOL_def fresh_reader_def client_env_def path_simps later_def)



text \<open>
  Claim C10, amended. Discovery never takes the built-in fallbacks. When the login
  configuration directory cannot be computed, discovery fails with that error before any
  file-system test. Otherwise \<^verbatim>\<open>get_tool_path\<close> is called with the list that starts with that
  directory, which is not empty; when \<^verbatim>\<open>PATH\<close> is not set the call fails with a \<open>KeyError\<close>
  before any test, and when it is set the candidates are the contribution of \<^verbatim>\<open>basedir\<close>,
  the configuration directory, the extra search paths and the entries of \<^verbatim>\<open>PATH\<close>, and
  every file-system test of discovery is at one of them.
\<close>

theorem discovery_never_takes_fallbacks:
  "(\<forall>e. my_login_config_path env = Inl e \<longrightarrow>
        search_my_print_defaults_tool env r extra = ([], Inl e))
   \<and> (\<forall>cfg. my_login_config_path env = Inr cfg \<longrightarrow>
        fst (search_my_print_defaults_tool env r extra)
          = fst (get_tool_path env (basedir r) MY_PRINT_DEFAULTS_TOOL True True
                   (Some (cfg # (case extra of None \<Rightarrow> [] | Some ps \<Rightarrow> ps))) True)
        \<and> (environ env ''PATH'' = None \<longrightarrow>
              search_my_print_defaults_tool env r extra = ([], Inl (KeyError ''PATH'')))
        \<and> (\<forall>v. environ env ''PATH'' = Some v \<longrightarrow>
              search_paths env (basedir r)
                  (Some (cfg # (case extra of None \<Rightarrow> [] | Some ps \<Rightarrow> ps))) True
                = Inr (basedir_candidates env (basedir r)
                       @ [cfg] @ (case extra of None \<Rightarrow> [] | Some ps \<Rightarrow> ps)
                       @ split_on (pathsep env) v)
              \<and> (\<forall>pr\<in>set (fst (search_my_print_defaults_tool env r extra)).
                    \<exists>path\<in>set (basedir_candidates env (basedir r)
                                @ [cfg] @ (case extra of None \<Rightarrow> [] | Some ps \<Rightarrow> ps)
                                @ split_on (pathsep env) v).
                      probes_at env path pr)))"
proof (intro conjI allI impI ballI)
  fix e
  assume "my_login_config_path env = Inl e"
  then show "search_my_print_defaults_tool env r extra = ([], Inl e)"
    by (simp add: search_my_print_defaults_tool_def)
next
  fix cfg
  assume cfg: "my_login_config_path env = Inr cfg"
  then show "fst (search_my_print_defaults_tool env r extra)
      = fst (get_tool_path env (basedir r) MY_PRINT_DEFAULTS_TOOL True True
               (Some (cfg # (case extra of None \<Rightarrow> [] | Some ps \<Rightarrow> ps))) True)"
    by (rule discovery_unfold)
next
  fix cfg
  let ?defaults = "cfg # (case extra of None \<Rightarrow> [] | Some ps \<Rightarrow> ps)"
  assume cfg: "my_login_config_path env = Inr cfg" and "environ env ''PATH'' = None"
  then have "search_paths env (basedir r) (Some ?defaults) True = Inl (KeyError ''PATH'')"
    by (simp add: search_paths_def Let_def)
  then have "get_tool_path env (basedir r) MY_PRINT_DEFAULTS_TOOL True True (Some ?defaults) True
      = ([], Inl (KeyError ''PATH''))"
    by (rule get_tool_path_KeyError)
  with cfg show "search_my_print_defaults_tool env r extra = ([], Inl (KeyError ''PATH''))"
    by (auto simp add: search_my_print_defaults_tool_def Let_def split: option.split)
next
  fix cfg v
  let ?extra = "case extra of None \<Rightarrow> [] | Some ps \<Rightarrow> ps"
  assume "my_login_config_path env = Inr cfg" and "environ env ''PATH'' = Some v"
  then have "True \<longrightarrow> environ env ''PATH'' = Some v" by simp
  from search_paths_fallbacks_lemma [OF this, of "Some (cfg # ?extra)" "basedir r"]
  show "search_paths env (basedir r) (Some (cfg # ?extra)) True
      = Inr (basedir_candidates env (basedir r) @ [cfg] @ ?extra @ split_on (pathsep env) v)"
    by (simp add: PATH_candidates_def)
next
  fix cfg v pr
  let ?extra = "case extra of None \<Rightarrow> [] | Some ps \<Rightarrow> ps"
  let ?defaults = "cfg # ?extra"
  assume cfg: "my_login_config_path env = Inr cfg" and "environ env ''PATH'' = Some v"
    and pr: "pr \<in> set (fst (search_my_print_defaults_tool env r extra))"
  then have "True \<longrightarrow> environ env ''PATH'' = Some v" by simp
  from search_paths_fallbacks_lemma [OF this, of "Some ?defaults" "basedir r"]
  have sp: "search_paths env (basedir r) (Some ?defaults) True
      = Inr (basedir_candidates env (basedir r) @ [cfg] @ ?extra @ split_on (pathsep env) v)"
    by (simp add: PATH_candidates_def)
  from pr have "pr \<in> set (fst (search_loop env (fixed_tool env MY_PRINT_DEFAULTS_TOOL True)
      (basedir_candidates env (basedir r) @ [cfg] @ ?extra @ split_on (pathsep env) v)))"
    using discovery_unfold [OF cfg] get_tool_path_probes [OF sp] by simp
  then show "\<exists>path\<in>set (basedir_candidates env (basedir r) @ [cfg] @ ?extra
                    @ split_on (pathsep env) v). probes_at env path pr"
    by (rule search_loop_probes)
qed


theorem discovery_never_takes_fallbacks_witness:
  "my_login_config_path client_env = Inr ''/home/user''
   \<and> environ client_env ''PATH'' = Some ''/usr/local/bin:/usr/bin:/bin''
   \<and> search_paths client_env (basedir (fresh_reader None)) (Some [''/home/user'']) True
       = Inr [''/home/user'', ''/usr/local/bin'', ''/usr/bin'', ''/bin'']
   \<and> fst (search_my_print_defaults_tool client_env (fresh_reader None) None)
       = [IsDir ''/home/user'', IsFile ''/home/user/my_print_defaults'',
          IsDir ''/usr/local/bin'', IsDir ''/usr/bin'', IsFile ''/usr/bin/my_print_defaults'']"
proof -
  have cfg: "my_login_config_path client_env = Inr ''/home/user''"
    by (simp add: my_login_config_path_def client_env_def posix_env_def)
  have pth: "environ client_env ''PATH'' = Some ''/usr/local/bin:/usr/bin:/bin''"
    by (simp add: client_env_def posix_env_def)
  note inst = discovery_never_takes_fallbacks [of client_env "fresh_reader None" None,
      THEN conjunct2, rule_format, OF cfg]
  from inst have sp: "search_paths client_env (basedir (fresh_reader None))
        (Some [''/home/user'']) True
      = Inr (basedir_candidates client_env (basedir (fresh_reader None))
             @ [''/home/user''] @ [] @ split_on (pathsep client_env) ''/usr/local/bin:/usr/bin:/bin'')"
    using pth by simp
  from inst have tr: "fst (search_my_print_defaults_tool client_env (fresh_reader None) None)
      = fst (get_tool_path client_env (basedir (fresh_reader None)) MY_PRINT_DEFAULTS_TOOL
               True True (Some [''/home/user'']) True)"
    by simp
  have "search_paths client_env (basedir (fresh_reader None)) (Some [''/home/user'']) True
       = Inr [''/home/user'', ''/usr/local/bin'', ''/usr/bin'', ''/bin'']"
    unfolding sp
    by (simp add: basedir_candidates_def fresh_reader_def client_env_def posix_env_def)
  moreover have "fst (search_my_print_defaults_tool client_env (fresh_reader None) None)
       = [IsDir ''/home/user'', IsFile ''/home/user/my_print_defaults'',
          IsDir ''/usr/local/bin'', IsDir ''/usr/bin'', IsFile ''/usr/bin/my_print_defaults'']"
    unfolding tr
    by (simp add: get_tool_path_def search_paths_def fixed_tool_def MY_PRINT_DEFAULTS_TOOL_def
          fresh_reader_def client_env_def path_simps later_def)
  ultimately show ?thesis using cfg pth by simp
qed

section \<open>The cache of groups\<close>

lemma queried_append: "queried w grp \<Longrightarrow> queried (w @ calls) grp"
  by (auto simp add: queried_def list_ex_iff)

lemma queried_last: "queried (w @ [\<lparr>argv = [path, grp], stderr_null = quiet\<rparr>]) grp"
  by (simp add: queried_def)

lemma run_tool_world:
  "fst (run_tool env r w path arg)
     = w @ [\<lparr>argv = [path, arg], stderr_null = \<not> (0 < verbosity r)\<rparr>]"
  by (simp add: run_tool_def subprocess_call_def)

lemma run_tool_stdout:
  "snd (run_tool env r w path arg) = tool_stdout env (length w) [path, arg]"
  by (simp add: run_tool_def subprocess_call_def)

lemma read_group_data_cases:
  obtains
    (no_tool) "tool_path r = None \<or> tool_path r = Some []"
      "read_group_data env r w grp = (Inl AssertionError, r, w)"
  | (failed) path e where "tool_path r = Some path" "path \<noteq> []"
      "parse_lines grp (readlines (tool_stdout env (length w) [path, grp])) = Inl e"
      "read_group_data env r w grp
         = (Inl e, r, w @ [\<lparr>argv = [path, grp], stderr_null = \<not> (0 < verbosity r)\<rparr>])"
  | (stored) path results where "tool_path r = Some path" "path \<noteq> []"
      "parse_lines grp (readlines (tool_stdout env (length w) [path, grp])) = Inr results"
      "read_group_data env r w grp
         = (Inr (if results \<noteq> [] then Some (dict results) else None),
            r\<lparr>config_data := (config_data r)
                 (grp \<mapsto> if results \<noteq> [] then Some (dict results) else None)\<rparr>,
            w @ [\<lparr>argv = [path, grp], stderr_null = \<not> (0 < verbosity r)\<rparr>])"
proof (cases "tool_path r")
  case None
  then show ?thesis using no_tool by (simp add: read_group_data_def)
next
  case (Some path)
  show ?thesis
  proof (cases "path = []")
    case True
    with Some show ?thesis using no_tool by (simp add: read_group_data_def)
  next
    case False
    show ?thesis
    proof (cases "parse_lines grp (readlines (tool_stdout env (length w) [path, grp]))")
      case (Inl e)
      with Some False show ?thesis
        using failed [of path e]
        by (simp add: read_group_data_def run_tool_def subprocess_call_def)
    next
      case (Inr results)
      with Some False show ?thesis
        using stored [of path results]
        by (simp add: read_group_data_def run_tool_def subprocess_call_def Let_def)
    qed
  qed
qed

lemma read_group_data_justified:
  assumes "cache_justified r w"
  shows "cache_justified (fst (snd (read_group_data env r w grp)))
           (snd (snd (read_group_data env r w grp)))"
proof (cases rule: read_group_data_cases [of r env w grp])
  case no_tool
  with assms show ?thesis by simp
next
  case (failed path e)
  with assms show ?thesis
    by (simp add: cache_justified_def queried_append)
next
  case (stored path results)
  with assms show ?thesis
    by (simp add: cache_justified_def queried_append queried_last)
qed

lemma get_group_data_justified:
  "cache_justified r w \<Longrightarrow>
   cache_justified (fst (snd (get_group_data env r w grp)))
     (snd (snd (get_group_data env r w grp)))"
  by (simp add: get_group_data_def read_group_data_justified split: option.split)

lemma get_option_value_state:
  "snd (get_option_value env r w grp name) = snd (get_group_data env r w grp)"
  by (simp add: get_option_value_def split: prod.split sum.split option.split)

lemma get_group_data_hit:
  "config_data r grp = Some data \<Longrightarrow> get_group_data env r w grp = (Inr data, r, w)"
  by (simp add: get_group_data_def)

lemma get_option_value_hit:
  "config_data r grp = Some data \<Longrightarrow>
   get_option_value env r w grp name
     = (Inr (case data of None \<Rightarrow> None | Some options \<Rightarrow> options name), r, w)"
  by (simp add: get_option_value_def get_group_data_hit split: option.split)

lemma get_group_data_stores:
  "get_group_data env r w grp = (Inr data, r', w') \<Longrightarrow> config_data r' grp = Some data"
proof (cases "config_data r grp")
  case (Some cached)
  assume "get_group_data env r w grp = (Inr data, r', w')"
  with Some show ?thesis by (simp add: get_group_data_def)
next
  case None
  assume "get_group_data env r w grp = (Inr data, r', w')"
  with None have rd: "read_group_data env r w grp = (Inr data, r', w')"
    by (simp add: get_group_data_def)
  show ?thesis
    by (cases rule: read_group_data_cases [of r env w grp]) (use rd in auto)
qed

lemma get_group_data_invocations:
  "length (snd (snd (get_group_data env r w grp))) \<le> Suc (length w)"
proof (cases "config_data r grp")
  case (Some cached)
  then show ?thesis by (simp add: get_group_data_def)
next
  case None
  then have "get_group_data env r w grp = read_group_data env r w grp"
    by (simp add: get_group_data_def)
  then show ?thesis
    by (cases rule: read_group_data_cases [of r env w grp]) auto
qed

lemma get_group_data_twice_invocations:
  "length (snd (snd (get_group_data_twice env r w grp))) \<le> Suc (length w)"
proof (cases "get_group_data env r w grp")
  case (fields res r' w')
  have len: "length w' \<le> Suc (length w)"
    using get_group_data_invocations [of env r w grp] fields by simp
  show ?thesis
  proof (cases res)
    case (Inl e)
    with fields len show ?thesis by (simp add: get_group_data_twice_def)
  next
    case (Inr data)
    with fields have "config_data r' grp = Some data"
      using get_group_data_stores by blast
    then have "get_group_data env r' w' grp = (Inr data, r', w')"
      by (rule get_group_data_hit)
    with fields Inr len show ?thesis by (simp add: get_group_data_twice_def)
  qed
qed


lemma cache_justified_empty: "config_data r = Map.empty \<Longrightarrow> cache_justified r w"
  by (simp add: cache_justified_def)

lemma cache_justified_more_calls:
  "cache_justified r w \<Longrightarrow> cache_justified r (w @ calls)"
  by (simp add: cache_justified_def queried_append)

lemma check_tool_version_world:
  "\<exists>calls. snd (check_tool_version env r w major_version minor_version) = w @ calls"
  by (auto simp add: check_tool_version_def run_tool_def subprocess_call_def Let_def
        split: option.split interpreter.split)

lemma check_login_path_support_world:
  "\<exists>calls. snd (check_login_path_support env r w) = w @ calls"
  by (auto simp add: check_login_path_support_def run_tool_def subprocess_call_def Let_def
        split: option.split)

lemma search_keeps_cache:
  "snd (search_my_print_defaults_tool env r extra) = Inr r' \<Longrightarrow>
   config_data r' = config_data r"
  by (auto simp add: search_my_print_defaults_tool_def Let_def
        split: sum.splits prod.splits error.splits)

lemma new_reader_cache:
  assumes "snd (new_reader env base verb discover) = Inr r"
  shows "config_data r = Map.empty"
proof (cases discover)
  case True
  with assms have "snd (search_my_print_defaults_tool env
      \<lparr>basedir = base, verbosity = (case verb of None \<Rightarrow> 0 | Some v \<Rightarrow> v),
       tool_path = None, config_data = Map.empty\<rparr> None) = Inr r"
    by (simp add: new_reader_def)
  from search_keeps_cache [OF this] show ?thesis by simp
next
  case False
  with assms show ?thesis by (auto simp add: new_reader_def)
qed

lemma cache_justified_other_methods:
  assumes "cache_justified r w"
  shows "cache_justified r (snd (check_tool_version env r w major_version minor_version))"
    and "cache_justified r (snd (check_login_path_support env r w))"
    and "snd (search_my_print_defaults_tool env r extra) = Inr r' \<Longrightarrow> cache_justified r' w"
proof -
  show "cache_justified r (snd (check_tool_version env r w major_version minor_version))"
    using check_tool_version_world [of env r w major_version minor_version]
      cache_justified_more_calls [OF assms] by auto
  show "cache_justified r (snd (check_login_path_support env r w))"
    using check_login_path_support_world [of env r w]
      cache_justified_more_calls [OF assms] by auto
  show "cache_justified r' w" if "snd (search_my_print_defaults_tool env r extra) = Inr r'"
    using search_keeps_cache [OF that] assms by (simp add: cache_justified_def)
qed

lemma get_group_data_empty_output:
  assumes "tool_path r = Some path" and "path \<noteq> []" and "config_data r grp = None"
    and "tool_stdout env (length w) [path, grp] = []"
  shows "get_group_data env r w grp
     = (Inr None, r\<lparr>config_data := (config_data r)(grp \<mapsto> None)\<rparr>,
        w @ [\<lparr>argv = [path, grp], stderr_null = \<not> (0 < verbosity r)\<rparr>])"
  using assms
  by (simp add: get_group_data_def read_group_data_def run_tool_def subprocess_call_def)

text \<open>
  Nothing is stored when decoding fails: the call has been made, the cache is as before,
  and a caller that handles the error and asks again makes the tool run again.
\<close>

lemma decode_error_is_not_stored:
  "get_group_data (posix_env [] [] [] ''/root'' (\<lambda>n args. [CHR 0xFF, CHR 0x0A]))
     found_reader [] ''client''
   = (Inl UnicodeDecodeError, found_reader, [client_call])"
  by (simp add: get_group_data_def read_group_data_def run_tool_def subprocess_call_def
        posix_env_def found_reader_def client_call_def utf8_sequence_def)

text \<open>
  Claim C5. A reader with an empty cache has a justified cache, and \<^verbatim>\<open>get_group_data\<close> and
  \<^verbatim>\<open>get_option_value\<close> keep it justified: a group that is a key of the cache has been
  queried (the other methods keep it too, \<open>cache_justified_other_methods\<close>). For a group
  that is a key of the cache, both methods answer from the cache and leave the reader and
  the record of calls as they are, whether or not a tool path is set. A call of
  \<^verbatim>\<open>get_group_data\<close> that returns has stored what it returns, and a second call in sequence
  returns the same without a further call of the tool. A tool that prints nothing makes the
  group a key with no data, and \<^verbatim>\<open>get_option_value\<close> then returns \<open>None\<close> for every option
  without a call. Two calls of \<^verbatim>\<open>get_group_data\<close> in sequence add at most one call of the
  tool.
\<close>

theorem cache_answers_without_tool:
  "(\<forall>base verb discover. snd (new_reader env base verb discover) = Inr r \<longrightarrow> cache_justified r w)
   \<and> (cache_justified r w \<longrightarrow>
        cache_justified (fst (snd (get_group_data env r w grp)))
          (snd (snd (get_group_data env r w grp)))
        \<and> cache_justified (fst (snd (get_option_value env r w grp name)))
            (snd (snd (get_option_value env r w grp name))))
   \<and> (\<forall>data. config_data r grp = Some data \<longrightarrow>
        get_group_data env r w grp = (Inr data, r, w)
        \<and> get_option_value env r w grp name
            = (Inr (case data of None \<Rightarrow> None | Some options \<Rightarrow> options name), r, w))
   \<and> (\<forall>data r' w'. get_group_data env r w grp = (Inr data, r', w') \<longrightarrow>
        config_data r' grp = Some data
        \<and> get_group_data_twice env r w grp = (Inr data, r', w'))
   \<and> (\<forall>path. tool_path r = Some path \<and> path \<noteq> [] \<and> config_data r grp = None
          \<and> tool_stdout env (length w) [path, grp] = [] \<longrightarrow>
        (\<exists>r' w'. get_group_data env r w grp = (Inr None, r', w')
           \<and> config_data r' grp = Some None
           \<and> (\<forall>opt. get_option_value env r' w' grp opt = (Inr None, r', w'))))
   \<and> length (snd (snd (get_group_data_twice env r w grp))) \<le> Suc (length w)"
proof (intro conjI allI impI)
  fix base verb discover
  assume "snd (new_reader env base verb discover) = Inr r"
  then have "config_data r = Map.empty" by (rule new_reader_cache)
  then show "cache_justified r w" by (rule cache_justified_empty)
next
  assume "cache_justified r w"
  then show "cache_justified (fst (snd (get_group_data env r w grp)))
      (snd (snd (get_group_data env r w grp)))"
    by (rule get_group_data_justified)
next
  assume "cache_justified r w"
  then show "cache_justified (fst (snd (get_option_value env r w grp name)))
      (snd (snd (get_option_value env r w grp name)))"
    unfolding get_option_value_state by (rule get_group_data_justified)
next
  fix data
  assume "config_data r grp = Some data"
  then show "get_group_data env r w grp = (Inr data, r, w)"
    by (rule get_group_data_hit)
next
  fix data
  assume "config_data r grp = Some data"
  then show "get_option_value env r w grp name
      = (Inr (case data of None \<Rightarrow> None | Some options \<Rightarrow> options name), r, w)"
    by (rule get_option_value_hit)
next
  fix data r' w'
  assume "get_group_data env r w grp = (Inr data, r', w')"
  then show "config_data r' grp = Some data"
    by (rule get_group_data_stores)
next
  fix data r' w'
  assume first: "get_group_data env r w grp = (Inr data, r', w')"
  then have "config_data r' grp = Some data"
    by (rule get_group_data_stores)
  then have "get_group_data env r' w' grp = (Inr data, r', w')"
    by (rule get_group_data_hit)
  with first show "get_group_data_twice env r w grp = (Inr data, r', w')"
    by (simp add: get_group_data_twice_def)
next
  fix path
  assume a: "tool_path r = Some path \<and> path \<noteq> [] \<and> config_data r grp = None
          \<and> tool_stdout env (length w) [path, grp] = []"
  let ?r' = "r\<lparr>config_data := (config_data r)(grp \<mapsto> None)\<rparr>"
  let ?w' = "w @ [\<lparr>argv = [path, grp], stderr_null = \<not> (0 < verbosity r)\<rparr>]"
  from a have "get_group_data env r w grp = (Inr None, ?r', ?w')"
    using get_group_data_empty_output [of r path grp env w] by blast
  moreover have "config_data ?r' grp = Some None" by simp
  moreover from this have "get_option_value env ?r' ?w' grp opt = (Inr None, ?r', ?w')" for opt
    using get_option_value_hit [of ?r' grp None env ?w' opt] by simp
  ultimately show "\<exists>r' w'. get_group_data env r w grp = (Inr None, r', w')
           \<and> config_data r' grp = Some None
           \<and> (\<forall>opt. get_option_value env r' w' grp opt = (Inr None, r', w'))"
    by blast
next
  show "length (snd (snd (get_group_data_twice env r w grp))) \<le> Suc (length w)"
    by (rule get_group_data_twice_invocations)
qed

theorem cache_answers_without_tool_witness:
  "get_group_data client_env found_reader [] ''client''
     = (Inr None, found_reader\<lparr>config_data := [''client'' \<mapsto> None]\<rparr>, [client_call])
   \<and> get_group_data client_env (found_reader\<lparr>config_data := [''client'' \<mapsto> None]\<rparr>)
        [client_call] ''client''
     = (Inr None, found_reader\<lparr>config_data := [''client'' \<mapsto> None]\<rparr>, [client_call])
   \<and> get_option_value client_env (found_reader\<lparr>config_data := [''client'' \<mapsto> None]\<rparr>)
        [client_call] ''client'' (u ''user'')
     = (Inr None, found_reader\<lparr>config_data := [''client'' \<mapsto> None]\<rparr>, [client_call])
   \<and> cache_justified (found_reader\<lparr>config_data := [''client'' \<mapsto> None]\<rparr>) [client_call]"
proof -
  let ?r' = "found_reader\<lparr>config_data := [''client'' \<mapsto> None]\<rparr>"
  have first: "get_group_data client_env found_reader [] ''client''
      = (Inr None, ?r', [client_call])"
    by (simp add: get_group_data_def read_group_data_def run_tool_def subprocess_call_def
          client_env_def posix_env_def found_reader_def client_call_def)
  have made: "snd (new_reader client_env None None True) = Inr found_reader"
    by (simp add: new_reader_def search_my_print_defaults_tool_def my_login_config_path_def
          get_tool_path_def search_paths_def fixed_tool_def MY_PRINT_DEFAULTS_TOOL_def
          found_reader_def client_env_def path_simps later_def)
  have hit: "config_data ?r' ''client'' = Some None" by simp
  note start = cache_answers_without_tool [where r = found_reader and w = "[]"
      and env = client_env and grp = "''client''" and name = "u ''user''"]
  note again = cache_answers_without_tool [where r = ?r' and w = "[client_call]"
      and env = client_env and grp = "''client''" and name = "u ''user''"]
  from start made have "cache_justified found_reader []" by blast
  with start have "cache_justified (fst (snd (get_group_data client_env found_reader [] ''client'')))
      (snd (snd (get_group_data client_env found_reader [] ''client'')))" by blast
  then have inv: "cache_justified ?r' [client_call]"
    unfolding first by simp
  from again hit have "get_group_data client_env ?r' [client_call] ''client''
        = (Inr None, ?r', [client_call])"
     and "get_option_value client_env ?r' [client_call] ''client'' (u ''user'')
        = (Inr (case None of None \<Rightarrow> None | Some options \<Rightarrow> options (u ''user'')),
           ?r', [client_call])"
    by blast+
  with first inv show ?thesis by simp
qed

end
